theory Spec2Isabelle
  imports Complex_Main
begin

section \<open>Strings\<close>

text \<open>
  A JavaScript string is a sequence of UTF-16 code units, each a number from 0 to 65535;
  the model has a string as the list of these numbers. \<open>str\<close> writes an ASCII text as
  such a list. \<^verbatim>\<open>trim\<close>, \<^verbatim>\<open>includes\<close>, \<^verbatim>\<open>join\<close>
  and the classes \<^verbatim>\<open>\s\<close> and \<^verbatim>\<open>.\<close> of a regular expression without flags work on code
  units and are defined below.
\<close>

type_synonym code_unit = int

type_synonym jsstring = "code_unit list"

definition str :: "string \<Rightarrow> jsstring" where
  "str s = map of_char s"

definition is_space :: "code_unit \<Rightarrow> bool" where
  \<comment> \<open>\<^verbatim>\<open>\s\<close> and the characters \<^verbatim>\<open>trim\<close> strips: TAB, LF, VT, FF, CR, SP, NBSP, U+1680,
      U+2000 to U+200A, U+2028, U+2029, U+202F, U+205F, U+3000 and U+FEFF\<close>
  "is_space n =
     (n = 9 \<or> n = 10 \<or> n = 11 \<or> n = 12 \<or> n = 13 \<or> n = 32 \<or> n = 160 \<or> n = 5760
      \<or> (8192 \<le> n \<and> n \<le> 8202) \<or> n = 8232 \<or> n = 8233 \<or> n = 8239 \<or> n = 8287
      \<or> n = 12288 \<or> n = 65279)"

definition is_line_term :: "code_unit \<Rightarrow> bool" where
  \<comment> \<open>the characters that \<^verbatim>\<open>.\<close> does not match: LF, CR, U+2028 and U+2029\<close>
  "is_line_term n = (n = 10 \<or> n = 13 \<or> n = 8232 \<or> n = 8233)"

definition trim :: "jsstring \<Rightarrow> jsstring" where
  "trim s = rev (dropWhile is_space (rev (dropWhile is_space s)))"

fun starts_with :: "jsstring \<Rightarrow> jsstring \<Rightarrow> bool" where
  "starts_with s [] = True"
| "starts_with [] (c # cs) = False"
| "starts_with (d # ds) (c # cs) = (d = c \<and> starts_with ds cs)"

fun str_includes :: "jsstring \<Rightarrow> jsstring \<Rightarrow> bool" where
  \<comment> \<open>\<^verbatim>\<open>hay.includes(needle)\<close>\<close>
  "str_includes [] needle = (needle = [])"
| "str_includes (c # cs) needle = (starts_with (c # cs) needle \<or> str_includes cs needle)"

fun join_sp :: "jsstring list \<Rightarrow> jsstring" where
  \<comment> \<open>\<^verbatim>\<open>words.join(' ')\<close>\<close>
  "join_sp [] = []"
| "join_sp [w] = w"
| "join_sp (w # v # ws) = w @ 32 # join_sp (v # ws)"

fun split_ws :: "bool \<Rightarrow> jsstring \<Rightarrow> jsstring \<Rightarrow> jsstring list" where
  \<comment> \<open>\<^verbatim>\<open>s.split(/\s+/)\<close> is \<open>split_ws False [] s\<close>: the flag says that the scan is inside
      a run of white space, the second argument is the word read so far\<close>
  "split_ws insp cur [] = [cur]"
| "split_ws insp cur (c # r) =
     (if is_space c then (if insp then split_ws True cur r else cur # split_ws True [] r)
      else split_ws False (cur @ [c]) r)"

section \<open>Values and the runtime\<close>

text \<open>
  The values the handlers work on: what \<^verbatim>\<open>JSON.parse\<close> and the query-string parser
  produce, and \<^verbatim>\<open>undefined\<close>, the result of reading a property that is not there. An object
  is the list of its own properties in property order, each key once. A number of a
  parsed text is a double: a rational or an infinity (\<^verbatim>\<open>JSON.parse\<close> yields no \<^verbatim>\<open>NaN\<close>, and
  the handlers never tell \<^verbatim>\<open>-0\<close> from \<^verbatim>\<open>0\<close>).

  A statement that throws is modelled by a result \<open>Inl\<close> of the sum type: reading a
  property of \<^verbatim>\<open>null\<close>, calling a method that is not there, converting to a string an
  object that has no usable \<^verbatim>\<open>toString\<close>, and a file that cannot be read.
\<close>

datatype number = Finite rat | PosInf | NegInf

datatype jsval =
    Undefined
  | Null
  | Bool bool
  | Num number
  | Str jsstring
  | Arr "jsval list"
  | Obj "(jsstring \<times> jsval) list"

datatype error = TypeError | IOError

record env =
  dirname :: jsstring
  readFile :: "jsstring \<Rightarrow> jsstring option"
  JSON_parse :: "jsstring \<Rightarrow> jsval option"
  unicode_lower :: "jsstring \<Rightarrow> jsstring"
  Number_toString :: "number \<Rightarrow> jsstring"

text \<open>
  The environment of a request: the directory of the server, the file system
  (\<open>readFile e p = None\<close> when the read fails) and the built-in functions that are taken
  as they are: \<^verbatim>\<open>JSON.parse\<close> (\<open>None\<close> when it throws a syntax error), \<^verbatim>\<open>toLowerCase\<close> on a
  string that is not pure ASCII, and the conversion of a number to a string where it
  is not an integer below \<^verbatim>\<open>2^53\<close> in size.
\<close>

definition ascii_lower :: "code_unit \<Rightarrow> code_unit" where
  "ascii_lower c = (if 65 \<le> c \<and> c \<le> 90 then c + 32 else c)"

definition toLowerCase :: "env \<Rightarrow> jsstring \<Rightarrow> jsstring" where
  \<comment> \<open>\<^verbatim>\<open>s.toLowerCase()\<close>: on an ASCII string the letters A to Z are replaced\<close>
  "toLowerCase e s =
     (if list_all (\<lambda>c. c < 128) s then map ascii_lower s else unicode_lower e s)"

fun truthy :: "jsval \<Rightarrow> bool" where
  "truthy Undefined = False"
| "truthy Null = False"
| "truthy (Bool b) = b"
| "truthy (Num n) = (n \<noteq> Finite 0)"
| "truthy (Str s) = (s \<noteq> [])"
| "truthy (Arr xs) = True"
| "truthy (Obj kvs) = True"

definition js_or :: "jsval \<Rightarrow> jsval \<Rightarrow> jsval" where
  \<comment> \<open>\<^verbatim>\<open>a || b\<close>\<close>
  "js_or a b = (if truthy a then a else b)"

definition nullish :: "jsval \<Rightarrow> bool" where
  "nullish v = (v = Undefined \<or> v = Null)"

definition js_coalesce :: "jsval \<Rightarrow> jsval \<Rightarrow> jsval" where
  \<comment> \<open>\<^verbatim>\<open>a ?? b\<close>\<close>
  "js_coalesce a b = (if nullish a then b else a)"

definition prop_get :: "jsval \<Rightarrow> jsstring \<Rightarrow> jsval" where
  \<comment> \<open>\<^verbatim>\<open>v.name\<close> for the property names the handlers read. None of them is an index,
      \<^verbatim>\<open>length\<close> or a member of a prototype, so only an object's own properties answer;
      the caller rules out \<^verbatim>\<open>null\<close> and \<^verbatim>\<open>undefined\<close>, on which the read throws.\<close>
  "prop_get v k = (case v of
       Obj kvs \<Rightarrow> (case map_of kvs k of Some x \<Rightarrow> x | None \<Rightarrow> Undefined)
     | _ \<Rightarrow> Undefined)"

definition opt_get :: "jsval \<Rightarrow> jsstring \<Rightarrow> jsval" where
  \<comment> \<open>\<^verbatim>\<open>v?.name\<close>\<close>
  "opt_get v k = (if nullish v then Undefined else prop_get v k)"

function decimal :: "int \<Rightarrow> jsstring" where
  \<comment> \<open>the decimal digits of an integer that is not negative\<close>
  "decimal i =
     (if i < 10 then [48 + of_int i] else decimal (i div 10) @ [48 + of_int (i mod 10)])"
  by pat_completeness auto

termination decimal
  by (relation "measure nat") auto

definition int_to_string :: "int \<Rightarrow> jsstring" where
  "int_to_string i = (if i < 0 then 45 # decimal (- i) else decimal i)"

definition number_string :: "env \<Rightarrow> number \<Rightarrow> jsstring" where
  \<comment> \<open>\<^verbatim>\<open>String(n)\<close> for a number: the decimal digits of an integer below \<^verbatim>\<open>2^53\<close> in size,
      the names of the infinities, and the built-in conversion for every other number\<close>
  "number_string e n = (case n of
       PosInf \<Rightarrow> str ''Infinity''
     | NegInf \<Rightarrow> str ''-Infinity''
     | Finite r \<Rightarrow>
         if r = of_int \<lfloor>r\<rfloor> \<and> \<bar>r\<bar> < 2 ^ 53 then int_to_string \<lfloor>r\<rfloor>
         else Number_toString e n)"

fun join_comma :: "jsstring list \<Rightarrow> jsstring" where
  "join_comma [] = []"
| "join_comma [w] = w"
| "join_comma (w # v # ws) = w @ 44 # join_comma (v # ws)"

fun to_string :: "env \<Rightarrow> jsval \<Rightarrow> jsstring" where
  \<comment> \<open>the value of \<^verbatim>\<open>String(v)\<close> when it returns; an array is its elements joined by
      commas, \<^verbatim>\<open>null\<close> and \<^verbatim>\<open>undefined\<close> elements giving the empty string\<close>
  "to_string e Undefined = str ''undefined''"
| "to_string e Null = str ''null''"
| "to_string e (Bool b) = (if b then str ''true'' else str ''false'')"
| "to_string e (Num n) = number_string e n"
| "to_string e (Str s) = s"
| "to_string e (Arr xs) =
     join_comma (map (\<lambda>x. if x = Undefined \<or> x = Null then [] else to_string e x) xs)"
| "to_string e (Obj kvs) = str ''[object Object]''"

fun coercible :: "jsval \<Rightarrow> bool" where
  \<comment> \<open>whether \<^verbatim>\<open>String(v)\<close> returns: an object with an own member named \<^verbatim>\<open>toString\<close>
      hides the method of its prototype behind a value that cannot be called, and the
      conversion throws; an array converts its elements\<close>
  "coercible (Obj kvs) = (map_of kvs (str ''toString'') = None)"
| "coercible (Arr xs) = list_all coercible xs"
| "coercible v = True"

definition js_String :: "env \<Rightarrow> jsval \<Rightarrow> error + jsstring" where
  \<comment> \<open>\<^verbatim>\<open>String(v)\<close>\<close>
  "js_String e v = (if coercible v then Inr (to_string e v) else Inl TypeError)"

fun filter_err :: "('a \<Rightarrow> error + bool) \<Rightarrow> 'a list \<Rightarrow> error + 'a list" where
  \<comment> \<open>\<^verbatim>\<open>xs.filter(f)\<close> for a predicate that may throw\<close>
  "filter_err f [] = Inr []"
| "filter_err f (x # xs) = (case f x of
       Inl err \<Rightarrow> Inl err
     | Inr keep \<Rightarrow> (case filter_err f xs of
                     Inl err \<Rightarrow> Inl err
                   | Inr ys \<Rightarrow> Inr (if keep then x # ys else ys)))"

fun map_err :: "('a \<Rightarrow> error + 'b) \<Rightarrow> 'a list \<Rightarrow> error + 'b list" where
  \<comment> \<open>\<^verbatim>\<open>xs.map(f)\<close> for a function that may throw\<close>
  "map_err f [] = Inr []"
| "map_err f (x # xs) = (case f x of
       Inl err \<Rightarrow> Inl err
     | Inr y \<Rightarrow> (case map_err f xs of Inl err \<Rightarrow> Inl err | Inr ys \<Rightarrow> Inr (y # ys)))"

section \<open>The title heuristic\<close>

text \<open>
  \<^verbatim>\<open>s.match(/^(.+?):\s*(.+)$/)\<close>. The lazy group \<^verbatim>\<open>(.+?)\<close> takes at least one character and
  is extended one character at a time, never over a line terminator; at each colon the
  rest of the pattern is tried. \<open>match_tail r\<close> is \<^verbatim>\<open>\s*(.+)$\<close> on the text after the
  colon: the greedy \<^verbatim>\<open>\s*\<close> takes the whole leading white space, and gives one character
  back when nothing else is left for \<^verbatim>\<open>(.+)\<close>; the group must reach the end of the
  string without meeting a line terminator.
\<close>

definition match_tail :: "jsstring \<Rightarrow> jsstring option" where
  "match_tail r = (let b = dropWhile is_space r in
     if b \<noteq> [] then (if list_ex is_line_term b then None else Some b)
     else if r \<noteq> [] \<and> \<not> is_line_term (last r) then Some [last r]
     else None)"

fun colon_scan :: "jsstring \<Rightarrow> jsstring \<Rightarrow> (jsstring \<times> jsstring) option" where
  "colon_scan a [] = None"
| "colon_scan a (c # r) =
     (if c = 58 \<and> match_tail r \<noteq> None then Some (a, the (match_tail r))
      else if is_line_term c then None
      else colon_scan (a @ [c]) r)"

definition colon_match :: "jsstring \<Rightarrow> (jsstring \<times> jsstring) option" where
  "colon_match s = (case s of [] \<Rightarrow> None
     | c # r \<Rightarrow> if is_line_term c then None else colon_scan [c] r)"

definition colon_rule :: "env \<Rightarrow> jsstring \<Rightarrow> jsstring option" where
  \<comment> \<open>lines 55 to 60: the value returned there, if any\<close>
  "colon_rule e s = (case colon_match s of None \<Rightarrow> None
     | Some (m1, m2) \<Rightarrow>
         (let A = trim m1; B = trim m2 in
          if str_includes (toLowerCase e A) (toLowerCase e B) then Some A else None))"

definition window_suffix :: "jsstring list \<Rightarrow> nat \<Rightarrow> jsstring" where
  \<comment> \<open>\<^verbatim>\<open>words.slice(-k).join(' ')\<close>, for \<open>0 < k\<close>\<close>
  "window_suffix ws k = join_sp (drop (length ws - k) ws)"

definition window_prefix :: "jsstring list \<Rightarrow> nat \<Rightarrow> jsstring" where
  \<comment> \<open>\<^verbatim>\<open>words.slice(0, -k).join(' ')\<close>, for \<open>0 < k\<close>\<close>
  "window_prefix ws k = join_sp (take (length ws - k) ws)"

definition window_hit :: "env \<Rightarrow> jsstring list \<Rightarrow> nat \<Rightarrow> bool" where
  "window_hit e ws k =
     str_includes (toLowerCase e (window_prefix ws k)) (toLowerCase e (window_suffix ws k))"

fun window_loop :: "env \<Rightarrow> jsstring list \<Rightarrow> nat \<Rightarrow> jsstring option" where
  \<comment> \<open>the \<^verbatim>\<open>for\<close> loop of lines 62 to 68, entered with counter \<open>k\<close>\<close>
  "window_loop e ws k =
     (if 2 \<le> k then
        (if window_hit e ws k then Some (trim (window_prefix ws k))
         else window_loop e ws (k - 1))
      else None)"

definition cleanTitle_str :: "env \<Rightarrow> jsstring \<Rightarrow> jsstring" where
  \<comment> \<open>\<^verbatim>\<open>cleanTitle\<close> after \<^verbatim>\<open>String(s||'')\<close>\<close>
  "cleanTitle_str e raw = (let s = trim raw in
     if s = [] then s
     else case colon_rule e s of Some A \<Rightarrow> A
       | None \<Rightarrow>
          (let ws = split_ws False [] s in
           case window_loop e ws (min 8 (length ws div 2)) of Some p \<Rightarrow> p
           | None \<Rightarrow> s))"

definition cleanTitle :: "env \<Rightarrow> jsval \<Rightarrow> error + jsstring" where
  \<comment> \<open>lines 52 to 70\<close>
  "cleanTitle e s = (case js_String e (js_or s (Str [])) of
       Inl err \<Rightarrow> Inl err
     | Inr raw \<Rightarrow> Inr (cleanTitle_str e raw))"

section \<open>The record store loader\<close>

definition resolvePrivateFile :: "env \<Rightarrow> jsstring \<Rightarrow> jsstring" where
  "resolvePrivateFile e fileName = dirname e @ str ''/private/data/'' @ fileName"

fun split_lines :: "jsstring \<Rightarrow> jsstring \<Rightarrow> jsstring list" where
  \<comment> \<open>\<^verbatim>\<open>text.split(/\r?\n/)\<close> is \<open>split_lines [] text\<close>; the first argument is the line
      read so far\<close>
  "split_lines cur [] = [cur]"
| "split_lines cur [c] = (if c = 10 then [cur, []] else [cur @ [c]])"
| "split_lines cur (c # d # r) =
     (if c = 10 then cur # split_lines [] (d # r)
      else if c = 13 \<and> d = 10 then cur # split_lines [] r
      else split_lines (cur @ [c]) (d # r))"

fun load_loop :: "(jsstring \<Rightarrow> jsval option) \<Rightarrow> jsval list \<Rightarrow> jsstring list \<Rightarrow> jsval list" where
  \<comment> \<open>the \<^verbatim>\<open>forEach\<close> of lines 44 to 47, with \<^verbatim>\<open>out\<close> as the second argument\<close>
  "load_loop parse out [] = out"
| "load_loop parse out (line # ls) =
     (if trim line = [] then load_loop parse out ls
      else case parse line of
             Some v \<Rightarrow> load_loop parse (out @ [v]) ls
           | None \<Rightarrow> load_loop parse out ls)"

definition loadJsonl :: "env \<Rightarrow> jsstring \<Rightarrow> error + jsval list" where
  "loadJsonl e filePath = (case readFile e filePath of
       None \<Rightarrow> Inl IOError
     | Some text \<Rightarrow> Inr (load_loop (JSON_parse e) [] (split_lines [] text)))"

section \<open>Query parameters and pagination\<close>

record query =
  country_param :: jsval
  q_param :: jsval
  level_param :: jsval
  deadline_param :: jsval
  page_param :: jsval
  pageSize_param :: jsval

text \<open>
  \<^verbatim>\<open>req.query\<close>: a parameter that is absent is \<open>Undefined\<close>, one given once is a \<open>Str\<close>,
  one given several times or with brackets is an \<open>Arr\<close> or an \<open>Obj\<close>. Each handler
  reads its parameters inside its \<^verbatim>\<open>try\<close> block, so that a conversion that throws is
  answered like every other exception.

  The numbers the handlers compute with come from \<^verbatim>\<open>parseInt\<close>: \<^verbatim>\<open>NaN\<close>, an infinity, or
  a double with an integral value. Every operation on them is the exact operation
  followed by rounding to the nearest double, ties to the even significand.
\<close>

datatype jsnum = NaN | PInf | NInf | Fin int

function bit_length :: "int \<Rightarrow> nat" where
  \<comment> \<open>the number of binary digits of a positive integer\<close>
  "bit_length n = (if n \<le> 0 then 0 else Suc (bit_length (n div 2)))"
  by pat_completeness auto

termination bit_length
  by (relation "measure nat") auto

definition round_double :: "int \<Rightarrow> jsnum" where
  \<comment> \<open>the double nearest to an integer: the integer itself below \<^verbatim>\<open>2^53\<close> in size; above,
      its 53 leading bits, rounded on the bits that are cut; an infinity from \<^verbatim>\<open>2^1024\<close>\<close>
  "round_double i = (let a = \<bar>i\<bar> in
     if a < 2 ^ 53 then Fin i
     else let ex = bit_length a - 53;
              q = a div 2 ^ ex;
              r = a mod 2 ^ ex;
              q' = (if 2 ^ ex < 2 * r \<or> (2 * r = 2 ^ ex \<and> odd q) then q + 1 else q);
              v = q' * 2 ^ ex
          in if 2 ^ 1024 \<le> v then (if i < 0 then NInf else PInf)
             else Fin (if i < 0 then - v else v))"

definition param_string :: "env \<Rightarrow> jsval \<Rightarrow> jsstring \<Rightarrow> error + jsstring" where
  \<comment> \<open>\<^verbatim>\<open>String(v || 'd')\<close>\<close>
  "param_string e v d = js_String e (js_or v (Str d))"

definition is_digit :: "code_unit \<Rightarrow> bool" where
  "is_digit c = (48 \<le> c \<and> c \<le> 57)"

definition digits_value :: "jsstring \<Rightarrow> int" where
  "digits_value ds = foldl (\<lambda>acc c. 10 * acc + (c - 48)) 0 ds"

definition parseInt :: "jsstring \<Rightarrow> jsnum" where
  \<comment> \<open>\<^verbatim>\<open>parseInt(s, 10)\<close>: leading white space, an optional sign, the longest run of
      decimal digits, whose value is rounded to a double; \<^verbatim>\<open>NaN\<close> when there is no digit\<close>
  "parseInt s = (let s1 = dropWhile is_space s;
       neg = (s1 \<noteq> [] \<and> hd s1 = 45);
       s2 = (if s1 \<noteq> [] \<and> (hd s1 = 45 \<or> hd s1 = 43) then tl s1 else s1);
       ds = takeWhile is_digit s2
     in if ds = [] then NaN
        else round_double (if neg then - digits_value ds else digits_value ds))"

fun Math_max :: "jsnum \<Rightarrow> jsnum \<Rightarrow> jsnum" where
  "Math_max NaN b = NaN"
| "Math_max a NaN = NaN"
| "Math_max PInf b = PInf"
| "Math_max a PInf = PInf"
| "Math_max NInf b = b"
| "Math_max a NInf = a"
| "Math_max (Fin a) (Fin b) = Fin (max a b)"

fun Math_min :: "jsnum \<Rightarrow> jsnum \<Rightarrow> jsnum" where
  "Math_min NaN b = NaN"
| "Math_min a NaN = NaN"
| "Math_min NInf b = NInf"
| "Math_min a NInf = NInf"
| "Math_min PInf b = b"
| "Math_min a PInf = a"
| "Math_min (Fin a) (Fin b) = Fin (min a b)"

fun num_neg :: "jsnum \<Rightarrow> jsnum" where
  "num_neg NaN = NaN"
| "num_neg PInf = NInf"
| "num_neg NInf = PInf"
| "num_neg (Fin a) = Fin (- a)"

fun num_add :: "jsnum \<Rightarrow> jsnum \<Rightarrow> jsnum" where
  "num_add NaN b = NaN"
| "num_add a NaN = NaN"
| "num_add PInf NInf = NaN"
| "num_add NInf PInf = NaN"
| "num_add PInf b = PInf"
| "num_add a PInf = PInf"
| "num_add NInf b = NInf"
| "num_add a NInf = NInf"
| "num_add (Fin a) (Fin b) = round_double (a + b)"

definition num_sub :: "jsnum \<Rightarrow> jsnum \<Rightarrow> jsnum" where
  "num_sub a b = num_add a (num_neg b)"

definition sign_inf :: "bool \<Rightarrow> jsnum" where
  "sign_inf negative = (if negative then NInf else PInf)"

fun num_mul :: "jsnum \<Rightarrow> jsnum \<Rightarrow> jsnum" where
  "num_mul NaN b = NaN"
| "num_mul a NaN = NaN"
| "num_mul PInf PInf = PInf"
| "num_mul PInf NInf = NInf"
| "num_mul NInf PInf = NInf"
| "num_mul NInf NInf = PInf"
| "num_mul PInf (Fin b) = (if b = 0 then NaN else sign_inf (b < 0))"
| "num_mul NInf (Fin b) = (if b = 0 then NaN else sign_inf (0 < b))"
| "num_mul (Fin a) PInf = (if a = 0 then NaN else sign_inf (a < 0))"
| "num_mul (Fin a) NInf = (if a = 0 then NaN else sign_inf (0 < a))"
| "num_mul (Fin a) (Fin b) = round_double (a * b)"

definition page_of :: "env \<Rightarrow> query \<Rightarrow> error + jsnum" where
  \<comment> \<open>lines 88 and 122\<close>
  "page_of e rq =
     map_sum id (\<lambda>s. Math_max (Fin 1) (parseInt s)) (param_string e (page_param rq) (str ''1''))"

definition pageSize_of :: "env \<Rightarrow> query \<Rightarrow> error + jsnum" where
  \<comment> \<open>lines 89 and 123\<close>
  "pageSize_of e rq =
     map_sum id (\<lambda>s. Math_min (Fin 50) (Math_max (Fin 1) (parseInt s)))
       (param_string e (pageSize_param rq) (str ''20''))"

definition text_of :: "env \<Rightarrow> query \<Rightarrow> error + jsstring" where
  \<comment> \<open>lines 87 and 118\<close>
  "text_of e rq =
     map_sum id (\<lambda>s. toLowerCase e (trim s)) (param_string e (q_param rq) [])"

definition origin_of :: "env \<Rightarrow> query \<Rightarrow> error + jsstring" where
  \<comment> \<open>line 86\<close>
  "origin_of e rq =
     map_sum id (toLowerCase e) (param_string e (country_param rq) (str ''germany''))"

definition country_of :: "env \<Rightarrow> query \<Rightarrow> error + jsstring" where
  \<comment> \<open>line 119\<close>
  "country_of e rq = map_sum id trim (param_string e (country_param rq) [])"

definition level_of :: "env \<Rightarrow> query \<Rightarrow> error + jsstring" where
  \<comment> \<open>line 120\<close>
  "level_of e rq = map_sum id trim (param_string e (level_param rq) [])"

definition deadline_of :: "env \<Rightarrow> query \<Rightarrow> error + jsstring" where
  \<comment> \<open>line 121\<close>
  "deadline_of e rq = map_sum id trim (param_string e (deadline_param rq) [])"

definition slice_index :: "nat \<Rightarrow> jsnum \<Rightarrow> nat" where
  \<comment> \<open>an argument of \<^verbatim>\<open>slice\<close> as a position: \<^verbatim>\<open>NaN\<close> is 0, a negative value counts
      from the end, and the result stays within the array\<close>
  "slice_index len x = (case x of
       NaN \<Rightarrow> 0
     | PInf \<Rightarrow> len
     | NInf \<Rightarrow> 0
     | Fin r \<Rightarrow> if r < 0 then nat (max (int len + r) 0) else nat (min r (int len)))"

definition slice :: "'a list \<Rightarrow> jsnum \<Rightarrow> jsnum \<Rightarrow> 'a list" where
  \<comment> \<open>\<^verbatim>\<open>xs.slice(start, end)\<close>\<close>
  "slice xs start end' = (let k = slice_index (length xs) start;
       fin = slice_index (length xs) end'
     in take (fin - k) (drop k xs))"

definition paginate :: "'a list \<Rightarrow> jsnum \<Rightarrow> jsnum \<Rightarrow> 'a list \<times> nat" where
  \<comment> \<open>lines 103 to 105 and, word for word, 176 to 178: the pair of \<^verbatim>\<open>data\<close> and
      \<^verbatim>\<open>total\<close>\<close>
  "paginate filtered page pageSize = (let total = length filtered;
       start = num_mul (num_sub page (Fin 1)) pageSize;
       data = slice filtered start (num_add start pageSize)
     in (data, total))"

record payload =
  res_data :: "jsval list"
  res_total :: nat
  res_page :: jsnum
  res_pageSize :: jsnum
  res_country :: "jsstring option"

datatype response = Success payload | Failure nat jsstring

text \<open>
  \<open>Success\<close> is the body of a 200 response, \<open>res_country\<close> being \<open>None\<close> where the body has
  no such member; \<open>Failure\<close> carries the status and the text of \<^verbatim>\<open>error\<close>.
\<close>

section \<open>The programme query\<close>

datatype lookup = Absent | Own jsstring | Inherited

definition prototype_members :: "jsstring list" where
  \<comment> \<open>the property names every object literal inherits from \<^verbatim>\<open>Object.prototype\<close>\<close>
  "prototype_members = map str
     [''constructor'', ''__proto__'', ''hasOwnProperty'', ''isPrototypeOf'',
      ''propertyIsEnumerable'', ''toLocaleString'', ''toString'', ''valueOf'',
      ''__defineGetter__'', ''__defineSetter__'', ''__lookupGetter__'', ''__lookupSetter__'']"

definition COUNTRY_FILES :: "jsstring \<Rightarrow> lookup" where
  \<comment> \<open>\<^verbatim>\<open>COUNTRY_FILES[country]\<close>, lines 25 to 30 and 91. The table is an object literal, so
      a read by name also finds the members of its prototype: functions and, for
      \<^verbatim>\<open>__proto__\<close>, an object, all of them truthy and none a string.\<close>
  "COUNTRY_FILES country =
     (if country = str ''germany'' then Own (str ''daad_programmes.jsonl'')
      else if country = str ''netherlands'' then Own (str ''nl_programs.jsonl'')
      else if country = str ''sweden'' then Own (str ''sweden_rendered_all.jsonl'')
      else if country = str ''finland'' then Own (str ''studyinfoFin_programmes.jsonl'')
      else if country \<in> set prototype_members then Inherited
      else Absent)"

definition getTitle :: "env \<Rightarrow> jsstring \<Rightarrow> jsval \<Rightarrow> error + jsval" where
  \<comment> \<open>lines 71 to 82; reading a property of \<^verbatim>\<open>null\<close> throws, and so may \<^verbatim>\<open>cleanTitle\<close>\<close>
  "getTitle e country p =
     (if country = str ''germany'' then
        (if nullish p then Inl TypeError
         else map_sum id Str (cleanTitle e
           (js_or (js_or (prop_get p (str ''programme_title'')) (prop_get p (str ''title'')))
              (Str []))))
      else if country = str ''netherlands'' then
        (if nullish p then Inl TypeError
         else Inr (js_or (js_or (js_or (prop_get p (str ''name'')) (prop_get p (str ''title'')))
                      (prop_get p (str ''programTitle''))) (Str [])))
      else if country = str ''sweden'' then
        (if nullish p then Inl TypeError
         else map_sum id Str (cleanTitle e
           (js_or (js_or (js_or (prop_get p (str ''title''))
                      (prop_get p (str ''programme_title'')))
                      (prop_get p (str ''header_line''))) (Str []))))
      else if country = str ''finland'' then
        (if nullish p then Inl TypeError
         else map_sum id Str (cleanTitle e
           (js_or (js_or (js_or (prop_get p (str ''title''))
                      (opt_get (opt_get (prop_get p (str ''detail'')) (str ''nimi'')) (str ''en'')))
                      (opt_get (opt_get (prop_get p (str ''detail'')) (str ''nimi'')) (str ''fi'')))
              (Str []))))
      else Inr (Str []))"

definition title_matches :: "env \<Rightarrow> jsstring \<Rightarrow> jsstring \<Rightarrow> jsval \<Rightarrow> error + bool" where
  \<comment> \<open>the predicate of line 100; \<^verbatim>\<open>toLowerCase\<close> exists on strings only\<close>
  "title_matches e country q p = (case getTitle e country p of
       Inl err \<Rightarrow> Inl err
     | Inr t \<Rightarrow> (case js_or t (Str []) of
                  Str s \<Rightarrow> Inr (str_includes (toLowerCase e s) q)
                | _ \<Rightarrow> Inl TypeError))"

definition courses_filtered ::
  "env \<Rightarrow> jsstring \<Rightarrow> jsstring \<Rightarrow> jsval list \<Rightarrow> error + jsval list" where
  \<comment> \<open>lines 98 to 101\<close>
  "courses_filtered e country q all =
     (if q \<noteq> [] then filter_err (title_matches e country q) all else Inr all)"

definition courses :: "env \<Rightarrow> query \<Rightarrow> response" where
  \<comment> \<open>the handler of \<^verbatim>\<open>GET /api/courses\<close>, lines 84 to 112; whatever is thrown inside is
      answered with status 500. An inherited member of the table is truthy, so the guard
      of line 92 lets it pass, and it is not a string, so \<^verbatim>\<open>path.join\<close> in
      \<^verbatim>\<open>resolvePrivateFile\<close> throws a \<^verbatim>\<open>TypeError\<close>.\<close>
  "courses e rq =
     (case origin_of e rq of Inl err \<Rightarrow> Failure 500 (str ''Server error'') | Inr country \<Rightarrow>
     (case text_of e rq of Inl err \<Rightarrow> Failure 500 (str ''Server error'') | Inr q \<Rightarrow>
     (case page_of e rq of Inl err \<Rightarrow> Failure 500 (str ''Server error'') | Inr page \<Rightarrow>
     (case pageSize_of e rq of Inl err \<Rightarrow> Failure 500 (str ''Server error'') | Inr pageSize \<Rightarrow>
       (case COUNTRY_FILES country of
           Absent \<Rightarrow> Failure 400 (str ''Unsupported country'')
         | Inherited \<Rightarrow> Failure 500 (str ''Server error'')
         | Own fileName \<Rightarrow>
            (case loadJsonl e (resolvePrivateFile e fileName) of
               Inl err \<Rightarrow> Failure 500 (str ''Server error'')
             | Inr all \<Rightarrow>
                (case courses_filtered e country q all of
                   Inl err \<Rightarrow> Failure 500 (str ''Server error'')
                 | Inr filtered \<Rightarrow>
                    (let (data, total) = paginate filtered page pageSize
                     in Success \<lparr>res_data = data, res_total = total, res_page = page,
                          res_pageSize = pageSize, res_country = Some country\<rparr>))))))))"

section \<open>The scholarship query\<close>

fun same_value_zero :: "jsval \<Rightarrow> jsval \<Rightarrow> bool" where
  \<comment> \<open>the key equality of \<^verbatim>\<open>Map\<close>: primitives of one type with one value. Arrays and
      objects are keys by reference, and two identifiers read from two parsed lines are
      never the same reference.\<close>
  "same_value_zero Undefined Undefined = True"
| "same_value_zero Null Null = True"
| "same_value_zero (Bool a) (Bool b) = (a = b)"
| "same_value_zero (Num a) (Num b) = (a = b)"
| "same_value_zero (Str a) (Str b) = (a = b)"
| "same_value_zero a b = False"

fun map_set :: "(jsval \<times> jsval) list \<Rightarrow> jsval \<Rightarrow> jsval \<Rightarrow> (jsval \<times> jsval) list" where
  \<comment> \<open>\<^verbatim>\<open>m.set(k, v)\<close> on the entries of a \<^verbatim>\<open>Map\<close>\<close>
  "map_set [] k v = [(k, v)]"
| "map_set ((k', v') # m) k v =
     (if same_value_zero k' k then (k', v) # m else (k', v') # map_set m k v)"

fun map_get :: "(jsval \<times> jsval) list \<Rightarrow> jsval \<Rightarrow> jsval" where
  \<comment> \<open>\<^verbatim>\<open>m.get(k)\<close>\<close>
  "map_get [] k = Undefined"
| "map_get ((k', v') # m) k = (if same_value_zero k' k then v' else map_get m k)"

definition is_array :: "jsval \<Rightarrow> bool" where
  "is_array v = (case v of Arr xs \<Rightarrow> True | _ \<Rightarrow> False)"

definition record_id :: "jsval \<Rightarrow> jsval" where
  \<comment> \<open>\<^verbatim>\<open>r.id ?? r.scholarship_id\<close>, lines 136 and 145\<close>
  "record_id r = js_coalesce (prop_get r (str ''id'')) (prop_get r (str ''scholarship_id''))"

definition detail_steps :: "jsval \<Rightarrow> jsval" where
  \<comment> \<open>lines 138 to 140\<close>
  "detail_steps d =
     (if is_array (prop_get d (str ''steps'')) then prop_get d (str ''steps'')
      else if is_array (prop_get d (str ''application_steps''))
        then prop_get d (str ''application_steps'')
      else Arr [])"

fun stepsById_loop :: "(jsval \<times> jsval) list \<Rightarrow> jsval list \<Rightarrow> (jsval \<times> jsval) list" where
  \<comment> \<open>the loop of lines 134 to 142\<close>
  "stepsById_loop m [] = m"
| "stepsById_loop m (d # ds) =
     (if \<not> truthy d then stepsById_loop m ds
      else let did = record_id d in
        if did = Undefined \<or> did = Null then stepsById_loop m ds
        else stepsById_loop (map_set m did (detail_steps d)) ds)"

definition stepsById :: "jsval list \<Rightarrow> (jsval \<times> jsval) list" where
  "stepsById details = stepsById_loop [] details"

fun set_prop :: "(jsstring \<times> jsval) list \<Rightarrow> jsstring \<Rightarrow> jsval \<Rightarrow> (jsstring \<times> jsval) list" where
  \<comment> \<open>writing a property: in place when the key is there, at the end otherwise\<close>
  "set_prop [] k v = [(k, v)]"
| "set_prop ((k', v') # kvs) k v =
     (if k' = k then (k', v) # kvs else (k', v') # set_prop kvs k v)"

fun spread :: "jsval \<Rightarrow> (jsstring \<times> jsval) list" where
  \<comment> \<open>the properties \<^verbatim>\<open>{...s}\<close> copies: those of an object, the elements of an array and
      the characters of a string under their indices, none of a number or a boolean\<close>
  "spread (Obj kvs) = kvs"
| "spread (Arr xs) = map (\<lambda>i. (decimal (int i), xs ! i)) [0..<length xs]"
| "spread (Str s) = map (\<lambda>i. (decimal (int i), Str [s ! i])) [0..<length s]"
| "spread v = []"

definition merge_record :: "(jsval \<times> jsval) list \<Rightarrow> jsval \<Rightarrow> error + jsval" where
  \<comment> \<open>the function mapped over \<^verbatim>\<open>main\<close> in lines 144 to 147\<close>
  "merge_record m s =
     (if nullish s then Inl TypeError
      else let sid = record_id s
           in Inr (Obj (set_prop (spread s) (str ''steps'') (js_or (map_get m sid) (Arr [])))))"

definition merged_of :: "jsval list \<Rightarrow> jsval list \<Rightarrow> error + jsval list" where
  \<comment> \<open>lines 133 to 147\<close>
  "merged_of main details = map_err (merge_record (stepsById details)) main"

definition country_ok :: "env \<Rightarrow> jsstring \<Rightarrow> jsval \<Rightarrow> error + bool" where
  \<comment> \<open>the predicate of lines 151 and 152\<close>
  "country_ok e cc s =
     (case js_String e
        (js_or (js_or (js_or (prop_get s (str ''country'')) (prop_get s (str ''country_region'')))
           (prop_get s (str ''countryRegion''))) (Str [])) of
        Inl err \<Rightarrow> Inl err
      | Inr t \<Rightarrow> Inr (toLowerCase e (trim t) = cc))"

definition level_field :: "jsval \<Rightarrow> jsval" where
  \<comment> \<open>line 157\<close>
  "level_field s =
     js_or (js_or (prop_get s (str ''degree_levels'')) (prop_get s (str ''degreeLevels'')))
       (prop_get s (str ''levels''))"

definition level_ok :: "env \<Rightarrow> jsstring \<Rightarrow> jsval \<Rightarrow> error + bool" where
  \<comment> \<open>the predicate of lines 156 to 161; \<^verbatim>\<open>levels.map(String)\<close> converts every element
      before \<^verbatim>\<open>includes\<close> looks at any\<close>
  "level_ok e lvl s = (case level_field s of
       Arr xs \<Rightarrow> (case map_err (js_String e) xs of
                   Inl err \<Rightarrow> Inl err
                 | Inr strs \<Rightarrow> Inr (lvl \<in> set strs))
     | Str t \<Rightarrow> Inr (t = lvl)
     | _ \<Rightarrow> Inr False)"

fun str_less :: "jsstring \<Rightarrow> jsstring \<Rightarrow> bool" where
  \<comment> \<open>\<^verbatim>\<open>a < b\<close> on strings: code unit by code unit\<close>
  "str_less [] [] = False"
| "str_less [] (d # ds) = True"
| "str_less (c # cs) [] = False"
| "str_less (c # cs) (d # ds) = (c < d \<or> (c = d \<and> str_less cs ds))"

definition deadline_ok :: "env \<Rightarrow> jsstring \<Rightarrow> jsval \<Rightarrow> error + bool" where
  \<comment> \<open>the predicate of line 165: \<^verbatim>\<open>a >= b\<close> on strings is the negation of \<^verbatim>\<open>a < b\<close>\<close>
  "deadline_ok e dl s =
     (if \<not> truthy (prop_get s (str ''deadline'')) then Inr True
      else case js_String e (prop_get s (str ''deadline'')) of
             Inl err \<Rightarrow> Inl err
           | Inr t \<Rightarrow> Inr (\<not> str_less t dl))"

definition text_ok :: "env \<Rightarrow> jsstring \<Rightarrow> jsval \<Rightarrow> error + bool" where
  \<comment> \<open>the predicate of lines 169 to 173\<close>
  "text_ok e qq s =
     (case js_String e
             (js_or (js_or (prop_get s (str ''name'')) (prop_get s (str ''title''))) (Str [])) of
        Inl err \<Rightarrow> Inl err
      | Inr t \<Rightarrow>
         (case js_String e
                 (js_or (js_or (prop_get s (str ''provider'')) (prop_get s (str ''organizer'')))
                    (Str [])) of
            Inl err \<Rightarrow> Inl err
          | Inr pv \<Rightarrow>
             (let title = toLowerCase e t; provider = toLowerCase e pv
              in Inr (str_includes title qq \<or> str_includes provider qq))))"

definition country_filter :: "env \<Rightarrow> jsstring \<Rightarrow> jsval list \<Rightarrow> error + jsval list" where
  \<comment> \<open>lines 149 to 153\<close>
  "country_filter e country merged =
     (if country \<noteq> [] then filter_err (country_ok e (toLowerCase e (trim country))) merged
      else Inr merged)"

definition level_filter :: "env \<Rightarrow> jsstring \<Rightarrow> jsval list \<Rightarrow> error + jsval list" where
  \<comment> \<open>lines 154 to 162\<close>
  "level_filter e level merged =
     (if level \<noteq> [] then filter_err (level_ok e (trim level)) merged else Inr merged)"

definition deadline_filter :: "env \<Rightarrow> jsstring \<Rightarrow> jsval list \<Rightarrow> error + jsval list" where
  \<comment> \<open>lines 163 to 166\<close>
  "deadline_filter e deadline merged =
     (if deadline \<noteq> [] then filter_err (deadline_ok e deadline) merged else Inr merged)"

definition text_filter :: "env \<Rightarrow> jsstring \<Rightarrow> jsval list \<Rightarrow> error + jsval list" where
  \<comment> \<open>lines 167 to 174\<close>
  "text_filter e q merged =
     (if q \<noteq> [] then filter_err (text_ok e (toLowerCase e q)) merged else Inr merged)"

definition scholarships_filtered ::
  "env \<Rightarrow> jsstring \<Rightarrow> jsstring \<Rightarrow> jsstring \<Rightarrow> jsstring \<Rightarrow> jsval list \<Rightarrow> error + jsval list" where
  \<comment> \<open>lines 149 to 174: the four filters in their order, the first that throws ending
      the request\<close>
  "scholarships_filtered e q country level deadline merged =
     (case country_filter e country merged of
        Inl err \<Rightarrow> Inl err
      | Inr m1 \<Rightarrow>
         (case level_filter e level m1 of
            Inl err \<Rightarrow> Inl err
          | Inr m2 \<Rightarrow>
             (case deadline_filter e deadline m2 of
                Inl err \<Rightarrow> Inl err
              | Inr m3 \<Rightarrow> text_filter e q m3)))"

definition scholarships :: "env \<Rightarrow> query \<Rightarrow> response" where
  \<comment> \<open>the handler of \<^verbatim>\<open>GET /api/scholarships\<close>, lines 116 to 185\<close>
  "scholarships e rq =
     (case text_of e rq of Inl err \<Rightarrow> Failure 500 (str ''Server error'') | Inr q \<Rightarrow>
     (case country_of e rq of Inl err \<Rightarrow> Failure 500 (str ''Server error'') | Inr country \<Rightarrow>
     (case level_of e rq of Inl err \<Rightarrow> Failure 500 (str ''Server error'') | Inr level \<Rightarrow>
     (case deadline_of e rq of Inl err \<Rightarrow> Failure 500 (str ''Server error'') | Inr deadline \<Rightarrow>
     (case page_of e rq of Inl err \<Rightarrow> Failure 500 (str ''Server error'') | Inr page \<Rightarrow>
     (case pageSize_of e rq of Inl err \<Rightarrow> Failure 500 (str ''Server error'') | Inr pageSize \<Rightarrow>
       (case loadJsonl e (resolvePrivateFile e (str ''scholarships_pk.jsonl'')) of
           Inl err \<Rightarrow> Failure 500 (str ''Server error'')
         | Inr main \<Rightarrow>
            (case loadJsonl e (resolvePrivateFile e (str ''scholar_details.jsonl'')) of
               Inl err \<Rightarrow> Failure 500 (str ''Server error'')
             | Inr details \<Rightarrow>
                (case merged_of main details of
                   Inl err \<Rightarrow> Failure 500 (str ''Server error'')
                 | Inr merged \<Rightarrow>
                    (case scholarships_filtered e q country level deadline merged of
                       Inl err \<Rightarrow> Failure 500 (str ''Server error'')
                     | Inr filtered \<Rightarrow>
                        (let (data, total) = paginate filtered page pageSize
                         in Success \<lparr>res_data = data, res_total = total, res_page = page,
                              res_pageSize = pageSize, res_country = None\<rparr>)))))))))))"

section \<open>Notions of the specification and example data\<close>

fun loosely_equal :: "env \<Rightarrow> jsval \<Rightarrow> jsval \<Rightarrow> bool" where
  \<comment> \<open>The loose equality the specification names for identifiers, as far as it is
      needed here: \<^verbatim>\<open>null\<close> and \<^verbatim>\<open>undefined\<close> are equal, primitives of one type are equal
      when their values are, and a number equals the string that is its string form.\<close>
  "loosely_equal e (Num n) (Str s) = (s = number_string e n)"
| "loosely_equal e (Str s) (Num n) = (s = number_string e n)"
| "loosely_equal e Undefined Null = True"
| "loosely_equal e Null Undefined = True"
| "loosely_equal e a b = same_value_zero a b"

fun universal_lines :: "jsstring \<Rightarrow> jsstring \<Rightarrow> jsstring list" where
  \<comment> \<open>The lines of a text under any newline convention, as the specification words it:
      a line ends at CR LF, at LF or at CR.\<close>
  "universal_lines cur [] = [cur]"
| "universal_lines cur [c] = (if c = 10 \<or> c = 13 then [cur, []] else [cur @ [c]])"
| "universal_lines cur (c # d # r) =
     (if c = 13 \<and> d = 10 then cur # universal_lines [] r
      else if c = 10 \<or> c = 13 then cur # universal_lines [] (d # r)
      else universal_lines (cur @ [c]) (d # r))"

fun text_of_lines :: "(jsstring \<times> bool) list \<Rightarrow> jsstring \<Rightarrow> jsstring" where
  \<comment> \<open>the text made of lines, each ended by CR LF when its flag is set and by LF
      otherwise, followed by a last line\<close>
  "text_of_lines [] z = z"
| "text_of_lines ((l, crlf) # ls) z =
     l @ (if crlf then [13, 10] else [10]) @ text_of_lines ls z"

definition map_has :: "(jsval \<times> jsval) list \<Rightarrow> jsval \<Rightarrow> bool" where
  \<comment> \<open>\<^verbatim>\<open>m.has(k)\<close>\<close>
  "map_has m k = list_ex (\<lambda>entry. same_value_zero (fst entry) k) m"

definition own_field :: "jsval \<Rightarrow> jsstring \<Rightarrow> jsval option" where
  \<comment> \<open>an own property of an object, \<open>None\<close> when there is none of that name\<close>
  "own_field v k = (case v of Obj kvs \<Rightarrow> map_of kvs k | _ \<Rightarrow> None)"

definition is_object :: "jsval \<Rightarrow> bool" where
  "is_object v = (case v of Obj kvs \<Rightarrow> True | _ \<Rightarrow> False)"

definition steps_inv :: "(jsval \<times> jsval) list \<Rightarrow> bool" where
  \<comment> \<open>what holds of the lookup throughout the loop of lines 134 to 142: every value is
      an array and no key is \<^verbatim>\<open>null\<close> or \<^verbatim>\<open>undefined\<close>\<close>
  "steps_inv m = list_all (\<lambda>entry. is_array (snd entry) \<and> \<not> nullish (fst entry)) m"

definition is_big :: "jsnum \<Rightarrow> bool" where
  \<comment> \<open>a number that is at least \<^verbatim>\<open>2^53\<close>, beyond the length of every array\<close>
  "is_big x = (case x of PInf \<Rightarrow> True | Fin v \<Rightarrow> 2 ^ 53 \<le> v | _ \<Rightarrow> False)"

definition example_main :: "jsval list" where
  "example_main =
     [Obj [(str ''id'', Num (Finite 1)), (str ''name'', Str (str ''Alpha'')),
           (str ''levels'', Arr [Str (str ''MSc'')])],
      Obj [(str ''scholarship_id'', Str (str ''k'')), (str ''name'', Str (str ''Beta''))],
      Obj [(str ''name'', Str (str ''Gamma''))]]"

definition example_details :: "jsval list" where
  "example_details =
     [Obj [(str ''id'', Num (Finite 1)), (str ''steps'', Arr [Str (str ''a'')])],
      Obj [(str ''scholarship_id'', Str (str ''k'')),
           (str ''application_steps'', Arr [Str (str ''b'')])]]"

definition example_parse :: "jsstring \<Rightarrow> jsval option" where
  \<comment> \<open>\<^verbatim>\<open>JSON.parse\<close> on the lines of the example files: the texts it accepts there; on
      the others (\<^verbatim>\<open>{bad\<close>, and \<^verbatim>\<open>1\<close>, CR, \<^verbatim>\<open>2\<close> as one text) it throws\<close>
  "example_parse line =
     (if line = str ''1'' then Some (Num (Finite 1))
      else if line = str ''2'' then Some (Num (Finite 2))
      else if line = str '' [7,8]'' then Some (Arr [Num (Finite 7), Num (Finite 8)])
      else if line = str ''{}'' then Some (Obj [])
      else if line = str ''{\"id\":1,\"name\":\"Alpha\",\"levels\":[\"MSc\"]}''
        then Some (example_main ! 0)
      else if line = str ''{\"scholarship_id\":\"k\",\"name\":\"Beta\"}''
        then Some (example_main ! 1)
      else if line = str ''{\"name\":\"Gamma\"}'' then Some (example_main ! 2)
      else if line = str ''{\"id\":1,\"steps\":[\"a\"]}'' then Some (example_details ! 0)
      else if line = str ''{\"scholarship_id\":\"k\",\"application_steps\":[\"b\"]}''
        then Some (example_details ! 1)
      else None)"

definition example_env :: env where
  \<comment> \<open>a server with four files; the examples reach neither of the two conversions it
      leaves to the runtime\<close>
  "example_env = \<lparr>
     dirname = str ''/srv'',
     readFile = (\<lambda>p.
       if p = str ''/srv/private/data/daad_programmes.jsonl''
         then Some (str ''1'' @ [10] @ [10] @ str ''{bad'' @ [13, 10]
                     @ str '' [7,8]'' @ [10] @ str ''  '' @ [10] @ str ''{}'')
       else if p = str ''/srv/private/data/old_mac.jsonl''
         then Some (str ''1'' @ [13] @ str ''2'')
       else if p = str ''/srv/private/data/scholarships_pk.jsonl''
         then Some (str ''{\"id\":1,\"name\":\"Alpha\",\"levels\":[\"MSc\"]}'' @ [10]
                     @ str ''{\"scholarship_id\":\"k\",\"name\":\"Beta\"}'' @ [10]
                     @ str ''{\"name\":\"Gamma\"}'' @ [10])
       else if p = str ''/srv/private/data/scholar_details.jsonl''
         then Some (str ''{\"id\":1,\"steps\":[\"a\"]}'' @ [13, 10]
                     @ str ''{\"scholarship_id\":\"k\",\"application_steps\":[\"b\"]}'')
       else None),
     JSON_parse = example_parse,
     unicode_lower = (\<lambda>s. s),
     Number_toString = (\<lambda>n. [])\<rparr>"

definition no_params :: query where
  "no_params = \<lparr>country_param = Undefined, q_param = Undefined, level_param = Undefined,
     deadline_param = Undefined, page_param = Undefined, pageSize_param = Undefined\<rparr>"

section \<open>Properties of the title heuristic\<close>

declare window_loop.simps [simp del]
declare decimal.simps [simp del]
declare bit_length.simps [simp del]

lemma cleanTitle_Str: "cleanTitle e (Str s) = Inr (cleanTitle_str e s)"
  by (cases s) (simp_all add: cleanTitle_def js_or_def js_String_def)

lemma window_loop_low: "k < 2 \<Longrightarrow> window_loop e ws k = None"
  by (subst window_loop.simps) simp

lemma cleanTitle_str_fallthrough:
  assumes "colon_rule e (trim s) = None"
  shows "cleanTitle_str e s =
     (case window_loop e (split_ws False [] (trim s))
             (min 8 (length (split_ws False [] (trim s)) div 2)) of
        Some p \<Rightarrow> p | None \<Rightarrow> trim s)"
proof (cases "trim s = []")
  case True
  then show ?thesis by (simp add: cleanTitle_str_def window_loop_low)
next
  case False
  with assms show ?thesis by (simp add: cleanTitle_str_def Let_def)
qed

lemma window_loop_hit:
  "2 \<le> k \<Longrightarrow> k \<le> k0 \<Longrightarrow> window_hit e ws k \<Longrightarrow>
   \<forall>j\<in>set [Suc k..<Suc k0]. \<not> window_hit e ws j \<Longrightarrow>
   window_loop e ws k0 = Some (trim (window_prefix ws k))"
proof (induction e ws k0 rule: window_loop.induct)
  case (1 e ws k0)
  show ?case
  proof (cases "k0 = k")
    case True
    with 1 show ?thesis by (subst window_loop.simps) simp
  next
    case False
    with 1 have nh: "\<not> window_hit e ws k0" and lt: "k \<le> k0 - 1" by auto
    have "window_loop e ws (k0 - 1) = Some (trim (window_prefix ws k))"
      using 1 nh lt False by (intro "1.IH") auto
    with 1 nh show ?thesis by (subst window_loop.simps) auto
  qed
qed

lemma window_loop_miss:
  "\<forall>j\<in>set [2..<Suc k0]. \<not> window_hit e ws j \<Longrightarrow> window_loop e ws k0 = None"
proof (induction e ws k0 rule: window_loop.induct)
  case (1 e ws k0)
  show ?case
  proof (cases "2 \<le> k0")
    case True
    with 1 have nh: "\<not> window_hit e ws k0" by auto
    have "window_loop e ws (k0 - 1) = None"
      using 1 nh True by (intro "1.IH") auto
    with nh True show ?thesis by (subst window_loop.simps) auto
  next
    case False
    then show ?thesis by (simp add: window_loop_low)
  qed
qed

text \<open>
  C4. When the colon rule returns nothing, \<^verbatim>\<open>cleanTitle\<close> splits the trimmed input into
  words at white space and tries the window lengths from \<open>min 8 (n div 2)\<close> down to 2:
  for the largest length \<open>k\<close> at which the lower-cased join of all but the last \<open>k\<close> words
  contains the lower-cased join of the last \<open>k\<close> words, the result is that prefix,
  trimmed; when no length in the range matches, the result is the trimmed input.
\<close>

theorem cleanTitle_suffix_window:
  assumes "colon_rule e (trim s) = None"
      and "ws = split_ws False [] (trim s)"
      and "k0 = min 8 (length ws div 2)"
  shows "(2 \<le> k \<and> k \<le> k0 \<and> window_hit e ws k
            \<and> (\<forall>j\<in>set [Suc k..<Suc k0]. \<not> window_hit e ws j)
            \<longrightarrow> cleanTitle e (Str s) = Inr (trim (window_prefix ws k)))
       \<and> ((\<forall>j\<in>set [2..<Suc k0]. \<not> window_hit e ws j)
            \<longrightarrow> cleanTitle e (Str s) = Inr (trim s))"
proof -
  have "cleanTitle e (Str s) =
      Inr (case window_loop e (split_ws False [] (trim s))
              (min 8 (length (split_ws False [] (trim s)) div 2)) of
         Some p \<Rightarrow> p | None \<Rightarrow> trim s)"
    using assms(1) by (simp only: cleanTitle_Str cleanTitle_str_fallthrough)
  then have eq: "cleanTitle e (Str s)
      = Inr (case window_loop e ws k0 of Some p \<Rightarrow> p | None \<Rightarrow> trim s)"
    by (simp only: assms(2,3))
  show ?thesis
  proof (intro conjI impI)
    assume "2 \<le> k \<and> k \<le> k0 \<and> window_hit e ws k
              \<and> (\<forall>j\<in>set [Suc k..<Suc k0]. \<not> window_hit e ws j)"
    then have "window_loop e ws k0 = Some (trim (window_prefix ws k))"
      using window_loop_hit by blast
    with eq show "cleanTitle e (Str s) = Inr (trim (window_prefix ws k))" by simp
  next
    assume "\<forall>j\<in>set [2..<Suc k0]. \<not> window_hit e ws j"
    then have "window_loop e ws k0 = None" by (rule window_loop_miss)
    with eq show "cleanTitle e (Str s) = Inr (trim s)" by simp
  qed
qed

text \<open>
  The two examples of C4: a title of eight words whose last two repeat the two before
  them loses them at \<open>k = 2\<close>, after the lengths 4 and 3 have failed; a title of one word
  has no window to try and comes back unchanged.
\<close>

theorem cleanTitle_suffix_window_witness:
  "cleanTitle example_env (Str (str ''Master of Arts in Global Studies Global Studies''))
     = Inr (str ''Master of Arts in Global Studies'')
   \<and> cleanTitle example_env (Str (str ''Physics'')) = Inr (str ''Physics'')"
proof -
  let ?s = "str ''Master of Arts in Global Studies Global Studies''"
  let ?ws = "map str [''Master'', ''of'', ''Arts'', ''in'', ''Global'', ''Studies'',
                      ''Global'', ''Studies'']"
  have c: "colon_rule example_env (trim ?s) = None" by code_simp
  have w: "?ws = split_ws False [] (trim ?s)" by code_simp
  have k: "(4::nat) = min 8 (length ?ws div 2)" by simp
  have h: "(2::nat) \<le> 2 \<and> (2::nat) \<le> 4 \<and> window_hit example_env ?ws 2
           \<and> (\<forall>j\<in>set [Suc 2..<Suc 4]. \<not> window_hit example_env ?ws j)"
    by code_simp
  have p: "trim (window_prefix ?ws 2) = str ''Master of Arts in Global Studies''"
    by code_simp
  have "cleanTitle example_env (Str ?s) = Inr (trim (window_prefix ?ws 2))"
    using cleanTitle_suffix_window [OF c w k, of 2] h by blast
  then have one: "cleanTitle example_env (Str ?s)
      = Inr (str ''Master of Arts in Global Studies'')"
    by (simp only: p)
  have c': "colon_rule example_env (trim (str ''Physics'')) = None" by code_simp
  have w': "[str ''Physics''] = split_ws False [] (trim (str ''Physics''))" by code_simp
  have k': "(0::nat) = min 8 (length [str ''Physics''] div 2)" by simp
  have h': "\<forall>j\<in>set [2..<Suc 0]. \<not> window_hit example_env [str ''Physics''] j" by simp
  have t': "trim (str ''Physics'') = str ''Physics''" by code_simp
  have "cleanTitle example_env (Str (str ''Physics'')) = Inr (trim (str ''Physics''))"
    using cleanTitle_suffix_window [OF c' w' k', of 0] h' by blast
  then have two: "cleanTitle example_env (Str (str ''Physics'')) = Inr (str ''Physics'')"
    by (simp only: t')
  from one two show ?thesis by blast
qed

lemma trim_last: "trim s \<noteq> [] \<Longrightarrow> \<not> is_space (last (trim s))"
proof -
  assume ne: "trim s \<noteq> []"
  let ?d = "dropWhile is_space (rev (dropWhile is_space s))"
  from ne have d: "?d \<noteq> []" by (simp add: trim_def)
  then have "\<not> is_space (hd ?d)" by (rule hd_dropWhile)
  moreover have "last (trim s) = hd ?d" using d by (simp add: trim_def last_rev)
  ultimately show ?thesis by simp
qed

lemma trim_fixed:
  "b \<noteq> [] \<Longrightarrow> \<not> is_space (hd b) \<Longrightarrow> \<not> is_space (last b) \<Longrightarrow> trim b = b"
proof -
  assume b: "b \<noteq> []" and h: "\<not> is_space (hd b)" and l: "\<not> is_space (last b)"
  from b h have 1: "dropWhile is_space b = b" by (cases b) auto
  from b l have 2: "dropWhile is_space (rev b) = rev b"
    by (cases "rev b") (auto simp: last_rev [symmetric] hd_rev)
  show ?thesis by (simp add: trim_def 1 2)
qed

lemma colon_scan_first:
  "58 \<notin> set x \<Longrightarrow> \<not> list_ex is_line_term x \<Longrightarrow> match_tail r = Some b \<Longrightarrow>
   colon_scan acc (x @ 58 # r) = Some (acc @ x, b)"
  by (induction x arbitrary: acc) (auto simp: is_line_term_def)

text \<open>
  C5, as amended. Let the trimmed input be \<open>a\<close>, a colon and \<open>r\<close>, where \<open>a\<close> is not empty
  and has no colon after its first character, and let \<open>b\<close>, what is left of \<open>r\<close> after its
  leading white space, be not empty; let neither \<open>a\<close> nor \<open>b\<close> hold a line terminator
  (LF, CR, U+2028 or U+2029). If \<open>a\<close>, trimmed and in lower case, contains \<open>b\<close> in lower
  case, then \<^verbatim>\<open>cleanTitle\<close> returns \<open>a\<close> trimmed.
\<close>

theorem cleanTitle_colon_rule:
  assumes "trim s = a @ 58 # r"
      and "a \<noteq> []"
      and "58 \<notin> set (tl a)"
      and "\<not> list_ex is_line_term a"
      and "b = dropWhile is_space r"
      and "b \<noteq> []"
      and "\<not> list_ex is_line_term b"
      and "str_includes (toLowerCase e (trim a)) (toLowerCase e b)"
  shows "cleanTitle e (Str s) = Inr (trim a)"
proof -
  obtain c x where a: "a = c # x" using assms(2) by (cases a) auto
  have hd_b: "\<not> is_space (hd b)"
    using assms(5,6) hd_dropWhile [of is_space r] by simp
  have "r = takeWhile is_space r @ b" using assms(5) by simp
  then have "trim s = (a @ 58 # takeWhile is_space r) @ b"
    using assms(1) by simp
  then have "last (trim s) = last b" using assms(6) by (metis last_appendR)
  moreover have "trim s \<noteq> []" using assms(1) by simp
  ultimately have last_b: "\<not> is_space (last b)" using trim_last [of s] by simp
  have tb: "trim b = b" using assms(6) hd_b last_b by (rule trim_fixed)
  have mt: "match_tail r = Some b"
    using assms(5,6,7) by (simp add: match_tail_def)
  have "colon_scan [c] (x @ 58 # r) = Some ([c] @ x, b)"
    using assms(3,4) a mt by (intro colon_scan_first) auto
  then have "colon_match (trim s) = Some (a, b)"
    using assms(1,4) a by (simp add: colon_match_def)
  then have "colon_rule e (trim s) = Some (trim a)"
    using assms(8) tb by (simp add: colon_rule_def)
  with \<open>trim s \<noteq> []\<close> show ?thesis
    by (simp add: cleanTitle_Str cleanTitle_str_def)
qed

theorem cleanTitle_colon_rule_witness:
  "cleanTitle example_env (Str (str ''Data Science: Data Science'')) = Inr (str ''Data Science'')"
proof -
  have h1: "trim (str ''Data Science: Data Science'')
      = str ''Data Science'' @ 58 # str '' Data Science''"
    by code_simp
  have h2: "str ''Data Science'' \<noteq> []" by code_simp
  have h3: "58 \<notin> set (tl (str ''Data Science''))" by code_simp
  have h4: "\<not> list_ex is_line_term (str ''Data Science'')" by code_simp
  have h5: "str ''Data Science'' = dropWhile is_space (str '' Data Science'')" by code_simp
  have h7: "str_includes (toLowerCase example_env (trim (str ''Data Science'')))
              (toLowerCase example_env (str ''Data Science''))"
    by code_simp
  have t: "trim (str ''Data Science'') = str ''Data Science''" by code_simp
  show ?thesis
    using cleanTitle_colon_rule [OF h1 h2 h3 h4 h5 h2 h4 h7] by (simp only: t)
qed

text \<open>
  C5 as it is written fails on a title with a line terminator before the colon: the
  input \<^verbatim>\<open>x\<close>, LF, \<^verbatim>\<open>y: y\<close> has the form \<^verbatim>\<open><A>: <B>\<close> with \<open>A\<close> containing \<open>B\<close>, yet the pattern
  does not match across the line terminator, no window applies to three words, and the
  whole input comes back. The same holds with U+2028 in the place of LF, where the
  input is two words.
\<close>

theorem cleanTitle_colon_rule_counterexample:
  "trim [120, 10, 121, 58, 32, 121] = [120, 10, 121] @ 58 # 32 # [121]
   \<and> str_includes (toLowerCase example_env (trim [120, 10, 121]))
        (toLowerCase example_env [121])
   \<and> cleanTitle example_env (Str [120, 10, 121, 58, 32, 121])
       = Inr [120, 10, 121, 58, 32, 121]
   \<and> cleanTitle example_env (Str [120, 10, 121, 58, 32, 121]) \<noteq> Inr (trim [120, 10, 121])
   \<and> trim [120, 8232, 121, 58, 32, 121] = [120, 8232, 121] @ 58 # 32 # [121]
   \<and> cleanTitle example_env (Str [120, 8232, 121, 58, 32, 121])
       = Inr [120, 8232, 121, 58, 32, 121]
   \<and> cleanTitle example_env (Str [120, 8232, 121, 58, 32, 121])
       \<noteq> Inr (trim [120, 8232, 121])"
  by code_simp

section \<open>Properties of the record store loader\<close>

lemma load_loop_eq:
  "load_loop parse out ls = out @ List.map_filter parse (filter (\<lambda>l. trim l \<noteq> []) ls)"
  by (induction ls arbitrary: out) (auto simp: List.map_filter_simps split: option.splits)

lemma split_lines_last: "10 \<notin> set z \<Longrightarrow> split_lines cur z = [cur @ z]"
  by (induction cur z rule: split_lines.induct) auto

lemma split_lines_break:
  "10 \<notin> set l \<Longrightarrow>
   split_lines cur (l @ 10 # rest) =
     (if l \<noteq> [] \<and> last l = 13 then cur @ butlast l else cur @ l) # split_lines [] rest"
proof (induction l arbitrary: cur)
  case Nil
  show ?case by (cases rest) simp_all
next
  case (Cons c l)
  then have c: "c \<noteq> 10" and l: "10 \<notin> set l" by auto
  show ?case
  proof (cases l)
    case Nil
    with c show ?thesis by (cases rest) auto
  next
    case (Cons d l')
    with l have d: "d \<noteq> 10" by auto
    have "split_lines cur ((c # l) @ 10 # rest)
        = split_lines (cur @ [c]) (l @ 10 # rest)"
      using c d Cons by simp
    also have "\<dots> = (if l \<noteq> [] \<and> last l = 13 then (cur @ [c]) @ butlast l
                      else (cur @ [c]) @ l) # split_lines [] rest"
      using l by (rule Cons.IH)
    finally show ?thesis using Cons by simp
  qed
qed

lemma split_lines_text_of_lines:
  "\<forall>x\<in>set ls. 10 \<notin> set (fst x) \<and> (snd x \<or> fst x = [] \<or> last (fst x) \<noteq> 13) \<Longrightarrow>
   10 \<notin> set z \<Longrightarrow>
   split_lines [] (text_of_lines ls z) = map fst ls @ [z]"
proof (induction ls)
  case Nil
  then show ?case by (simp add: split_lines_last)
next
  case (Cons x ls)
  obtain l crlf where x: "x = (l, crlf)" by (cases x)
  from Cons.prems x have l: "10 \<notin> set l"
    and e: "crlf \<or> l = [] \<or> last l \<noteq> 13" by auto
  have IH: "split_lines [] (text_of_lines ls z) = map fst ls @ [z]"
    using Cons by auto
  show ?case
  proof (cases crlf)
    case True
    have "split_lines [] ((l @ [13]) @ 10 # text_of_lines ls z)
        = l # split_lines [] (text_of_lines ls z)"
      using l by (subst split_lines_break) auto
    with True x IH show ?thesis by simp
  next
    case False
    have "split_lines [] (l @ 10 # text_of_lines ls z)
        = l # split_lines [] (text_of_lines ls z)"
      using l e False by (subst split_lines_break) auto
    with False x IH show ?thesis by simp
  qed
qed

text \<open>
  C9, as amended. On a file that can be read, \<^verbatim>\<open>loadJsonl\<close> returns, in file order, the
  values of exactly those lines that are not blank and that \<^verbatim>\<open>JSON.parse\<close> accepts; a blank
  line and a line that does not parse leave no trace. The lines are the pieces between
  line feeds, a carriage return just before a line feed belonging to the break: a text
  written as lines ended by LF or by CR LF (no line holding an LF, no LF-ended line
  ending in CR) and a last line splits back into exactly these lines. A carriage return
  alone does not end a line.
\<close>

theorem loadJsonl_records:
  assumes "readFile e filePath = Some text"
  shows "loadJsonl e filePath =
           Inr (List.map_filter (JSON_parse e)
                  (filter (\<lambda>l. trim l \<noteq> []) (split_lines [] text)))
     \<and> (text = text_of_lines ls z
          \<and> (\<forall>x\<in>set ls. 10 \<notin> set (fst x)
                \<and> (snd x \<or> fst x = [] \<or> last (fst x) \<noteq> 13))
          \<and> 10 \<notin> set z
        \<longrightarrow> split_lines [] text = map fst ls @ [z])"
  using assms by (simp add: loadJsonl_def load_loop_eq split_lines_text_of_lines)

text \<open>
  The example file has six lines, ended by LF and once by CR LF: a number, an empty line,
  a line that is not JSON, an array, a line of blanks and an object. Three records load.
\<close>

theorem loadJsonl_records_witness:
  "readFile example_env (str ''/srv/private/data/daad_programmes.jsonl'')
     = Some (text_of_lines [(str ''1'', False), ([], False), (str ''{bad'', True),
                            (str '' [7,8]'', False), (str ''  '', False)] (str ''{}''))
   \<and> split_lines [] (text_of_lines [(str ''1'', False), ([], False), (str ''{bad'', True),
                            (str '' [7,8]'', False), (str ''  '', False)] (str ''{}''))
     = [str ''1'', [], str ''{bad'', str '' [7,8]'', str ''  '', str ''{}'']
   \<and> loadJsonl example_env (str ''/srv/private/data/daad_programmes.jsonl'')
     = Inr [Num (Finite 1), Arr [Num (Finite 7), Num (Finite 8)], Obj []]"
proof -
  let ?ls = "[(str ''1'', False), ([], False), (str ''{bad'', True),
              (str '' [7,8]'', False), (str ''  '', False)]"
  let ?p = "str ''/srv/private/data/daad_programmes.jsonl''"
  have r: "readFile example_env ?p = Some (text_of_lines ?ls (str ''{}''))" by code_simp
  have h: "\<forall>x\<in>set ?ls. 10 \<notin> set (fst x)
             \<and> (snd x \<or> fst x = [] \<or> last (fst x) \<noteq> 13)" by code_simp
  have z: "10 \<notin> set (str ''{}'')" by code_simp
  have l: "split_lines [] (text_of_lines ?ls (str ''{}'')) = map fst ?ls @ [str ''{}'']"
    using loadJsonl_records [OF r, of ?ls "str ''{}''"] h z by blast
  have v: "List.map_filter (JSON_parse example_env)
             (filter (\<lambda>l. trim l \<noteq> []) (map fst ?ls @ [str ''{}'']))
           = [Num (Finite 1), Arr [Num (Finite 7), Num (Finite 8)], Obj []]"
    by code_simp
  have "loadJsonl example_env ?p =
          Inr (List.map_filter (JSON_parse example_env)
                 (filter (\<lambda>l. trim l \<noteq> []) (split_lines [] (text_of_lines ?ls (str ''{}'')))))"
    using loadJsonl_records [OF r, of ?ls "str ''{}''"] by blast
  then have "loadJsonl example_env ?p
      = Inr [Num (Finite 1), Arr [Num (Finite 7), Num (Finite 8)], Obj []]"
    by (simp only: l v)
  with r l show ?thesis by simp
qed

text \<open>
  C9 as it is written fails for the newline convention that ends a line by CR alone: the
  two lines \<^verbatim>\<open>1\<close> and \<^verbatim>\<open>2\<close> of such a file each parse, but the loader sees one line, which
  does not parse, and returns no record.
\<close>

theorem loadJsonl_any_newline_counterexample:
  "readFile example_env (str ''/srv/private/data/old_mac.jsonl'')
     = Some (str ''1'' @ [13] @ str ''2'')
   \<and> universal_lines [] (str ''1'' @ [13] @ str ''2'') = [str ''1'', str ''2'']
   \<and> List.map_filter (JSON_parse example_env)
        (filter (\<lambda>l. trim l \<noteq> []) (universal_lines [] (str ''1'' @ [13] @ str ''2'')))
       = [Num (Finite 1), Num (Finite 2)]
   \<and> split_lines [] (str ''1'' @ [13] @ str ''2'') = [str ''1'' @ [13] @ str ''2'']
   \<and> loadJsonl example_env (str ''/srv/private/data/old_mac.jsonl'') = Inr []"
  by code_simp

section \<open>Properties of the scholarship join\<close>

lemma same_value_zero_eq: "same_value_zero a b \<Longrightarrow> a = b"
  by (cases a; cases b; simp)

lemma map_get_set:
  "map_get (map_set m k v) k' = (if same_value_zero k k' then v else map_get m k')"
  by (induction m) (auto dest: same_value_zero_eq)

lemma stepsById_loop_append:
  "stepsById_loop m (xs @ ys) = stepsById_loop (stepsById_loop m xs) ys"
  by (induction xs arbitrary: m) (simp_all add: Let_def)

lemma stepsById_loop_skip:
  "\<forall>d\<in>set ds. \<not> (truthy d \<and> same_value_zero (record_id d) k) \<Longrightarrow>
   map_get (stepsById_loop m ds) k = map_get m k"
  by (induction ds arbitrary: m) (simp_all add: Let_def map_get_set)

lemma map_of_set_prop: "map_of (set_prop kvs k v) = (map_of kvs)(k \<mapsto> v)"
  by (induction kvs) auto

lemma detail_steps_array: "is_array (detail_steps d)"
  by (simp add: detail_steps_def is_array_def)

lemma is_array_truthy: "is_array v \<Longrightarrow> truthy v"
  by (cases v) (simp_all add: is_array_def)

lemma is_object_Obj: "is_object v \<Longrightarrow> \<exists>kvs. v = Obj kvs"
  by (cases v) (simp_all add: is_object_def)

lemma steps_inv_set:
  "steps_inv m \<Longrightarrow> is_array v \<Longrightarrow> \<not> nullish k \<Longrightarrow> steps_inv (map_set m k v)"
  by (induction m) (auto simp: steps_inv_def split: if_splits)

lemma steps_inv_loop: "steps_inv m \<Longrightarrow> steps_inv (stepsById_loop m ds)"
  by (induction ds arbitrary: m)
     (auto simp: Let_def steps_inv_set detail_steps_array nullish_def)

lemma steps_inv_stepsById: "steps_inv (stepsById details)"
  unfolding stepsById_def by (rule steps_inv_loop) (simp add: steps_inv_def)

lemma map_get_has: "steps_inv m \<Longrightarrow> map_has m k \<Longrightarrow> is_array (map_get m k)"
  by (induction m) (auto simp: steps_inv_def map_has_def)

lemma map_get_absent: "\<not> map_has m k \<Longrightarrow> map_get m k = Undefined"
  by (induction m) (auto simp: map_has_def)

lemma map_has_nullish: "steps_inv m \<Longrightarrow> nullish k \<Longrightarrow> \<not> map_has m k"
  by (induction m) (auto simp: steps_inv_def map_has_def dest: same_value_zero_eq)

lemma merge_record_object:
  "merge_record (stepsById details) (Obj kvs) =
     Inr (Obj (set_prop kvs (str ''steps'')
        (if map_has (stepsById details) (record_id (Obj kvs))
         then map_get (stepsById details) (record_id (Obj kvs)) else Arr [])))"
  using map_get_has [OF steps_inv_stepsById, of details "record_id (Obj kvs)"]
        map_get_absent [of "stepsById details" "record_id (Obj kvs)"]
  by (auto simp: merge_record_def nullish_def js_or_def is_array_truthy)

lemma map_err_total:
  "\<forall>x\<in>set xs. f x = Inr (g x) \<Longrightarrow> map_err f xs = Inr (map g xs)"
  by (induction xs) auto

text \<open>
  C1, as amended. The identity of the join is the key equality of the lookup: the two
  identifiers (read from \<^verbatim>\<open>id\<close>, else \<^verbatim>\<open>scholarship_id\<close>) are primitives of the same type
  and value. For a main record \<open>m\<close> that is an object and a detail record \<open>d\<close> that is
  truthy, has an identifier and whose identifier equals that of \<open>m\<close> in this sense, \<open>d\<close>
  being the last such record in load order, the augmented record for \<open>m\<close> carries the
  steps list of \<open>d\<close>.
\<close>

theorem join_strict_identity:
  assumes "is_object m"
      and "details = pre @ d # post"
      and "truthy d"
      and "\<not> nullish (record_id d)"
      and "same_value_zero (record_id d) (record_id m)"
      and "\<forall>d'\<in>set post. \<not> (truthy d' \<and> same_value_zero (record_id d') (record_id m))"
  shows "\<exists>aug. merge_record (stepsById details) m = Inr aug
           \<and> own_field aug (str ''steps'') = Some (detail_steps d)"
proof -
  let ?m1 = "stepsById_loop [] pre"
  have "stepsById details = stepsById_loop [] (pre @ [d] @ post)"
    using assms(2) by (simp add: stepsById_def)
  also have "\<dots> = stepsById_loop (stepsById_loop ?m1 [d]) post"
    by (simp only: stepsById_loop_append)
  also have "stepsById_loop ?m1 [d] = map_set ?m1 (record_id d) (detail_steps d)"
    using assms(3,4) by (simp add: Let_def nullish_def)
  finally have "stepsById details
      = stepsById_loop (map_set ?m1 (record_id d) (detail_steps d)) post" .
  then have "map_get (stepsById details) (record_id m)
      = map_get (map_set ?m1 (record_id d) (detail_steps d)) (record_id m)"
    using assms(6) by (simp add: stepsById_loop_skip)
  then have g: "map_get (stepsById details) (record_id m) = detail_steps d"
    using assms(5) by (simp add: map_get_set)
  obtain kvs where m: "m = Obj kvs" using assms(1) is_object_Obj by blast
  have "merge_record (stepsById details) m
      = Inr (Obj (set_prop kvs (str ''steps'') (detail_steps d)))"
    using g m detail_steps_array [of d]
    by (simp add: merge_record_def nullish_def js_or_def is_array_truthy)
  then show ?thesis by (simp add: own_field_def map_of_set_prop)
qed

text \<open>
  Four detail records: the first and the third carry the number 1 as identifier, the
  second the string \<^verbatim>\<open>"1"\<close>, the fourth is \<^verbatim>\<open>null\<close>. The main record with identifier 1 gets
  the steps of the third.
\<close>

theorem join_strict_identity_witness:
  "\<exists>aug. merge_record
      (stepsById [Obj [(str ''id'', Num (Finite 1)), (str ''steps'', Arr [Str (str ''a'')])],
                  Obj [(str ''id'', Str (str ''1'')), (str ''steps'', Arr [Str (str ''x'')])],
                  Obj [(str ''scholarship_id'', Num (Finite 1)),
                       (str ''application_steps'', Arr [Str (str ''b''), Str (str ''c'')])],
                  Null])
      (Obj [(str ''id'', Num (Finite 1)), (str ''name'', Str (str ''n''))]) = Inr aug
    \<and> own_field aug (str ''steps'') = Some (Arr [Str (str ''b''), Str (str ''c'')])"
proof -
  let ?d1 = "Obj [(str ''id'', Num (Finite 1)), (str ''steps'', Arr [Str (str ''a'')])]"
  let ?d2 = "Obj [(str ''id'', Str (str ''1'')), (str ''steps'', Arr [Str (str ''x'')])]"
  let ?d = "Obj [(str ''scholarship_id'', Num (Finite 1)),
                 (str ''application_steps'', Arr [Str (str ''b''), Str (str ''c'')])]"
  let ?m = "Obj [(str ''id'', Num (Finite 1)), (str ''name'', Str (str ''n''))]"
  have h1: "is_object ?m" by (simp add: is_object_def)
  have h2: "[?d1, ?d2, ?d, Null] = [?d1, ?d2] @ ?d # [Null]" by simp
  have h3: "truthy ?d" by simp
  have h4: "\<not> nullish (record_id ?d)" by code_simp
  have h5: "same_value_zero (record_id ?d) (record_id ?m)" by code_simp
  have h6: "\<forall>d'\<in>set [Null]. \<not> (truthy d' \<and> same_value_zero (record_id d') (record_id ?m))"
    by simp
  have s: "detail_steps ?d = Arr [Str (str ''b''), Str (str ''c'')]" by code_simp
  show ?thesis
    using join_strict_identity [OF h1 h2 h3 h4 h5 h6] by (simp only: s)
qed

text \<open>
  C1 as it is written fails when the two identifiers are equal only loosely: the main
  record with the number 1 and the detail record with the string \<^verbatim>\<open>"1"\<close> do not join, and
  the main record gets the empty list.
\<close>

theorem join_loose_identity_counterexample:
  "loosely_equal example_env (record_id (Obj [(str ''id'', Num (Finite 1))]))
      (record_id (Obj [(str ''id'', Str (str ''1'')),
                       (str ''steps'', Arr [Str (str ''a''), Str (str ''b'')])]))
   \<and> detail_steps (Obj [(str ''id'', Str (str ''1'')),
                        (str ''steps'', Arr [Str (str ''a''), Str (str ''b'')])])
       = Arr [Str (str ''a''), Str (str ''b'')]
   \<and> merged_of [Obj [(str ''id'', Num (Finite 1))]]
        [Obj [(str ''id'', Str (str ''1'')),
              (str ''steps'', Arr [Str (str ''a''), Str (str ''b'')])]]
       = Inr [Obj [(str ''id'', Num (Finite 1)), (str ''steps'', Arr [])]]"
  by code_simp

text \<open>
  C7. When every main record is an object, the merge succeeds and returns as many
  records as there are main records, in the same order; the record at each position is
  an object with the own fields of the main record at that position, except \<^verbatim>\<open>steps\<close>,
  which holds the entry of the lookup for the identifier of the main record, an array,
  or the empty array when the lookup has no such entry, as it has none for a record
  without identifier.
\<close>

theorem merge_frame:
  assumes "\<forall>s\<in>set main. is_object s"
  shows "\<exists>merged. merged_of main details = Inr merged \<and> length merged = length main \<and>
     (\<forall>i<length main.
        is_object (merged ! i)
        \<and> (\<forall>k. k \<noteq> str ''steps'' \<longrightarrow> own_field (merged ! i) k = own_field (main ! i) k)
        \<and> own_field (merged ! i) (str ''steps'') =
            Some (if map_has (stepsById details) (record_id (main ! i))
                  then map_get (stepsById details) (record_id (main ! i)) else Arr [])
        \<and> (map_has (stepsById details) (record_id (main ! i))
              \<longrightarrow> is_array (map_get (stepsById details) (record_id (main ! i))))
        \<and> (nullish (record_id (main ! i))
              \<longrightarrow> own_field (merged ! i) (str ''steps'') = Some (Arr [])))"
proof -
  let ?m = "stepsById details"
  let ?g = "\<lambda>s. Obj (set_prop (spread s) (str ''steps'')
              (if map_has ?m (record_id s) then map_get ?m (record_id s) else Arr []))"
  have each: "merge_record ?m s = Inr (?g s)" if "s \<in> set main" for s
  proof -
    from that assms have "is_object s" by blast
    then obtain kvs where "s = Obj kvs" using is_object_Obj by blast
    then show ?thesis by (simp add: merge_record_object)
  qed
  then have eq: "merged_of main details = Inr (map ?g main)"
    unfolding merged_of_def by (intro map_err_total) simp
  have idx: "is_object (map ?g main ! i)
        \<and> (\<forall>k. k \<noteq> str ''steps''
              \<longrightarrow> own_field (map ?g main ! i) k = own_field (main ! i) k)
        \<and> own_field (map ?g main ! i) (str ''steps'') =
            Some (if map_has ?m (record_id (main ! i))
                  then map_get ?m (record_id (main ! i)) else Arr [])
        \<and> (map_has ?m (record_id (main ! i)) \<longrightarrow> is_array (map_get ?m (record_id (main ! i))))
        \<and> (nullish (record_id (main ! i))
              \<longrightarrow> own_field (map ?g main ! i) (str ''steps'') = Some (Arr []))"
    if i: "i < length main" for i
  proof -
    from i assms have "is_object (main ! i)" by simp
    then obtain kvs where s: "main ! i = Obj kvs" using is_object_Obj by blast
    have "map ?g main ! i = ?g (Obj kvs)" using i s by simp
    then show ?thesis
      using s map_get_has [OF steps_inv_stepsById, of details "record_id (Obj kvs)"]
            map_has_nullish [OF steps_inv_stepsById, of "record_id (Obj kvs)" details]
      by (auto simp: is_object_def own_field_def map_of_set_prop)
  qed
  have len: "length (map ?g main) = length main" by simp
  show ?thesis
    by (rule exI [of _ "map ?g main"]) (use eq len idx in blast)
qed

text \<open>
  Three main records: one joined through \<^verbatim>\<open>id\<close>, one joined through \<^verbatim>\<open>scholarship_id\<close>
  whose own \<^verbatim>\<open>steps\<close> member is replaced where it stands, one without identifier.
\<close>

theorem merge_frame_witness:
  "(\<exists>merged. merged_of
        [Obj [(str ''id'', Num (Finite 1)), (str ''name'', Str (str ''x''))],
         Obj [(str ''steps'', Num (Finite 3)), (str ''scholarship_id'', Str (str ''k''))],
         Obj [(str ''name'', Str (str ''z''))]]
        [Obj [(str ''id'', Num (Finite 1)), (str ''steps'', Arr [Str (str ''a'')])],
         Obj [(str ''scholarship_id'', Str (str ''k'')),
              (str ''application_steps'', Arr [Str (str ''b'')])]]
        = Inr merged
      \<and> length merged = 3
      \<and> merged = [Obj [(str ''id'', Num (Finite 1)), (str ''name'', Str (str ''x'')),
                       (str ''steps'', Arr [Str (str ''a'')])],
                  Obj [(str ''steps'', Arr [Str (str ''b'')]),
                       (str ''scholarship_id'', Str (str ''k''))],
                  Obj [(str ''name'', Str (str ''z'')), (str ''steps'', Arr [])]])"
proof -
  let ?main = "[Obj [(str ''id'', Num (Finite 1)), (str ''name'', Str (str ''x''))],
              Obj [(str ''steps'', Num (Finite 3)), (str ''scholarship_id'', Str (str ''k''))],
              Obj [(str ''name'', Str (str ''z''))]]"
  let ?details = "[Obj [(str ''id'', Num (Finite 1)), (str ''steps'', Arr [Str (str ''a'')])],
         Obj [(str ''scholarship_id'', Str (str ''k'')),
              (str ''application_steps'', Arr [Str (str ''b'')])]]"
  have h: "\<forall>s\<in>set ?main. is_object s" by (simp add: is_object_def)
  obtain merged where m: "merged_of ?main ?details = Inr merged"
      and n: "length merged = length ?main"
    using merge_frame [OF h, of ?details] by blast
  have "merged_of ?main ?details
     = Inr [Obj [(str ''id'', Num (Finite 1)), (str ''name'', Str (str ''x'')),
                 (str ''steps'', Arr [Str (str ''a'')])],
            Obj [(str ''steps'', Arr [Str (str ''b'')]),
                 (str ''scholarship_id'', Str (str ''k''))],
            Obj [(str ''name'', Str (str ''z'')), (str ''steps'', Arr [])]]"
    by code_simp
  with m n show ?thesis by simp
qed

lemma merge_null_record_throws: "merged_of (Null # main) details = Inl TypeError"
  by (simp add: merged_of_def merge_record_def nullish_def)

section \<open>Properties of the level filter\<close>







section \<open>Properties of pagination\<close>

lemma round_exact: "\<bar>i\<bar> < 2 ^ 53 \<Longrightarrow> round_double i = Fin i"
  by (simp add: round_double_def)

lemma bit_length_lower: "0 < n \<Longrightarrow> 2 ^ (bit_length n - 1) \<le> n"
proof (induction n rule: bit_length.induct)
  case (1 n)
  show ?case
  proof (cases "n div 2 \<le> 0")
    case True
    with 1 have n: "n = 1" by simp
    have "bit_length 1 = Suc (bit_length 0)" using bit_length.simps [of 1] by simp
    also have "bit_length 0 = 0" using bit_length.simps [of 0] by simp
    finally show ?thesis using n by simp
  next
    case False
    then have h: "0 < n div 2" by simp
    with 1 have IH: "2 ^ (bit_length (n div 2) - 1) \<le> n div 2" by simp
    have "bit_length (n div 2) = Suc (bit_length (n div 2 div 2))"
      using h bit_length.simps [of "n div 2"] by simp
    then have b: "bit_length (n div 2) = Suc (bit_length (n div 2) - 1)" by simp
    have "bit_length n = Suc (bit_length (n div 2))"
      using "1.prems" bit_length.simps [of n] by simp
    then have "(2::int) ^ (bit_length n - 1) = 2 ^ bit_length (n div 2)" by simp
    also have "\<dots> = 2 * 2 ^ (bit_length (n div 2) - 1)"
      by (subst b) simp
    also have "\<dots> \<le> 2 * (n div 2)" using IH by simp
    also have "\<dots> \<le> n" by simp
    finally show ?thesis .
  qed
qed

lemma round_big:
  assumes "2 ^ 53 \<le> i"
  shows "is_big (round_double i)"
proof -
  define ex where "ex = bit_length i - 53"
  define q where "q = i div 2 ^ ex"
  define r where "r = i mod 2 ^ ex"
  define q' where "q' = (if 2 ^ ex < 2 * r \<or> (2 * r = 2 ^ ex \<and> odd q) then q + 1 else q)"
  define v where "v = q' * 2 ^ ex"
  define m where "m = max 53 ex"
  have pos: "0 < i"
  proof -
    have "(0::int) < 2 ^ 53" by simp
    with assms show ?thesis by linarith
  qed
  have rd: "round_double i = (if 2 ^ 1024 \<le> v then PInf else Fin v)"
  proof -
    have ai: "\<bar>i\<bar> = i" using pos by simp
    have n: "\<not> i < 2 ^ 53" "\<not> i < 0" using assms pos by simp_all
    show ?thesis
      unfolding round_double_def Let_def ai ex_def q_def r_def q'_def v_def
      by (simp only: n if_False)
  qed
  have mi: "2 ^ m \<le> i"
  proof (cases "ex \<le> 53")
    case True
    then have "m = 53" by (simp add: m_def)
    with assms show ?thesis by simp
  next
    case False
    then have "ex \<le> bit_length i - 1" "m = ex" by (simp_all add: ex_def m_def)
    then have "(2::int) ^ m \<le> 2 ^ (bit_length i - 1)"
      by (simp add: power_increasing)
    also have "\<dots> \<le> i" using pos by (rule bit_length_lower)
    finally show ?thesis .
  qed
  have split: "(2::int) ^ m = 2 ^ (m - ex) * 2 ^ ex"
    by (simp add: m_def power_add [symmetric])
  have "(2 ^ (m - ex) * 2 ^ ex) div 2 ^ ex \<le> i div (2 ^ ex :: int)"
    using mi unfolding split by (intro zdiv_mono1) simp_all
  then have "2 ^ (m - ex) \<le> q" by (simp add: q_def)
  then have "2 ^ (m - ex) * 2 ^ ex \<le> q * (2 ^ ex :: int)"
    by (intro mult_right_mono) simp_all
  then have "2 ^ m \<le> q * 2 ^ ex" by (simp only: split)
  moreover have "(2::int) ^ 53 \<le> 2 ^ m"
    by (intro power_increasing) (simp_all add: m_def)
  moreover have "q * 2 ^ ex \<le> v"
    unfolding v_def by (intro mult_right_mono) (simp_all add: q'_def)
  ultimately have "2 ^ 53 \<le> v" by linarith
  then show ?thesis by (simp add: rd is_big_def)
qed

lemma is_big_cases: "is_big x \<Longrightarrow> x = PInf \<or> (\<exists>v. x = Fin v \<and> 2 ^ 53 \<le> v)"
  by (cases x) (simp_all add: is_big_def)

lemma slice_index_big: "is_big x \<Longrightarrow> int len < 2 ^ 53 \<Longrightarrow> slice_index len x = len"
  by (cases x) (auto simp: is_big_def slice_index_def)

lemma slice_index_nonneg: "0 \<le> i \<Longrightarrow> slice_index len (Fin i) = min (nat i) len"
  unfolding slice_index_def Let_def by (simp split: if_splits)

lemma slice_big_start:
  "is_big start \<Longrightarrow> int (length xs) < 2 ^ 53 \<Longrightarrow> slice xs start end' = []"
  by (simp add: slice_def Let_def slice_index_big)

lemma slice_window:
  assumes "0 \<le> start" "0 \<le> n"
  shows "slice xs (Fin start) (Fin (start + n)) = take (nat n) (drop (nat start) xs)"
proof -
  have k: "slice_index (length xs) (Fin start) = min (nat start) (length xs)"
    using assms by (simp add: slice_index_nonneg)
  have f: "slice_index (length xs) (Fin (start + n)) = min (nat start + nat n) (length xs)"
    using assms by (simp add: slice_index_nonneg nat_add_distrib)
  show ?thesis
  proof (cases "nat start \<le> length xs")
    case True
    then show ?thesis by (simp add: slice_def Let_def k f min_def)
  next
    case False
    then show ?thesis by (simp add: slice_def Let_def k f min_def)
  qed
qed

lemma slice_big_end:
  assumes "0 \<le> start" "is_big end'" "int (length xs) < 2 ^ 53"
  shows "slice xs (Fin start) end' = drop (nat start) xs"
proof -
  have k: "slice_index (length xs) (Fin start) = min (nat start) (length xs)"
    using assms by (simp add: slice_index_nonneg)
  have f: "slice_index (length xs) end' = length xs"
    using assms by (simp add: slice_index_big)
  show ?thesis
  proof (cases "nat start \<le> length xs")
    case True
    then show ?thesis by (simp add: slice_def Let_def k f min_def)
  next
    case False
    then show ?thesis by (simp add: slice_def Let_def k f min_def)
  qed
qed

lemma start_big:
  assumes "1 \<le> p" and "1 \<le> ps" and "2 ^ 53 \<le> (p - 1) * ps"
  shows "is_big (num_mul (num_sub (Fin p) (Fin 1)) (Fin ps))"
proof (cases "p - 1 < 2 ^ 53")
  case True
  then have "round_double (p - 1) = Fin (p - 1)" using assms(1) by (intro round_exact) simp
  then have "num_mul (num_sub (Fin p) (Fin 1)) (Fin ps) = round_double ((p - 1) * ps)"
    by (simp add: num_sub_def)
  with assms(3) show ?thesis by (simp add: round_big)
next
  case False
  then have "is_big (round_double (p - 1))" by (intro round_big) simp
  then consider "round_double (p - 1) = PInf"
    | v where "round_double (p - 1) = Fin v" "2 ^ 53 \<le> v"
    using is_big_cases by blast
  then show ?thesis
  proof cases
    case 1
    then have "num_mul (num_sub (Fin p) (Fin 1)) (Fin ps) = PInf"
      using assms(2) by (simp add: num_sub_def sign_inf_def)
    then show ?thesis by (simp add: is_big_def)
  next
    case 2
    have v0: "0 \<le> v" using 2(2) by simp
    have "v * 1 \<le> v * ps" using assms(2) v0 by (rule mult_left_mono)
    then have "v \<le> v * ps" by (simp only: mult_1_right)
    with 2(2) have "2 ^ 53 \<le> v * ps" by (rule order_trans)
    then have "is_big (round_double (v * ps))" by (rule round_big)
    moreover have "num_mul (num_sub (Fin p) (Fin 1)) (Fin ps) = round_double (v * ps)"
      using 2(1) by (simp add: num_sub_def)
    ultimately show ?thesis by simp
  qed
qed

lemma paginate_clamped:
  assumes "1 \<le> p" and "1 \<le> ps" and "int (length xs) < 2 ^ 53"
  shows "paginate xs (Fin p) (Fin ps)
           = (take (nat ps) (drop (nat ((p - 1) * ps)) xs), length xs)"
proof (cases "(p - 1) * ps < 2 ^ 53")
  case True
  let ?s = "(p - 1) * ps"
  have s: "0 \<le> ?s" using assms by simp
  have p0: "0 \<le> p - 1" using assms(1) by simp
  have "(p - 1) * 1 \<le> ?s" using assms(2) p0 by (rule mult_left_mono)
  then have "p - 1 \<le> ?s" by (simp only: mult_1_right)
  then have "p - 1 < 2 ^ 53" using True by (rule le_less_trans)
  with p0 have "\<bar>p - 1\<bar> < 2 ^ 53" by simp
  then have "round_double (p - 1) = Fin (p - 1)" by (rule round_exact)
  moreover have "round_double ?s = Fin ?s" using True s by (intro round_exact) simp
  ultimately have st: "num_mul (num_sub (Fin p) (Fin 1)) (Fin ps) = Fin ?s"
    by (simp add: num_sub_def)
  show ?thesis
  proof (cases "?s + ps < 2 ^ 53")
    case True
    then have "round_double (?s + ps) = Fin (?s + ps)"
      using s assms(2) by (intro round_exact) simp
    then show ?thesis
      using slice_window [OF s, of ps xs] assms(2)
      by (simp add: paginate_def Let_def st)
  next
    case False
    then have "is_big (round_double (?s + ps))" by (intro round_big) simp
    then have "slice xs (Fin ?s) (round_double (?s + ps)) = drop (nat ?s) xs"
      using s assms(3) by (intro slice_big_end)
    moreover have "length (drop (nat ?s) xs) \<le> nat ps"
      using False assms(3) s by simp
    ultimately show ?thesis by (simp add: paginate_def Let_def st)
  qed
next
  case False
  then have "is_big (num_mul (num_sub (Fin p) (Fin 1)) (Fin ps))"
    using assms(1,2) by (intro start_big) simp_all
  then have "slice xs (num_mul (num_sub (Fin p) (Fin 1)) (Fin ps)) end' = []" for end'
    using assms(3) by (rule slice_big_start)
  moreover have "drop (nat ((p - 1) * ps)) xs = []"
    using False assms(3) by simp
  ultimately show ?thesis by (simp add: paginate_def Let_def)
qed

lemma paginate_infinite_page:
  assumes "1 \<le> ps"
  shows "paginate xs PInf (Fin ps) = ([], length xs)"
proof -
  have "num_mul (num_sub PInf (Fin 1)) (Fin ps) = PInf"
    using assms by (simp add: num_sub_def sign_inf_def)
  then show ?thesis
    by (simp add: paginate_def Let_def slice_def slice_index_def)
qed

lemma paginate_total: "snd (paginate xs page pageSize) = length xs"
  by (simp add: paginate_def Let_def)

lemma courses_success:
  assumes "courses e rq = Success body"
  shows "\<exists>country q fileName all filtered.
           origin_of e rq = Inr country \<and> text_of e rq = Inr q
         \<and> COUNTRY_FILES country = Own fileName
         \<and> loadJsonl e (resolvePrivateFile e fileName) = Inr all
         \<and> courses_filtered e country q all = Inr filtered
         \<and> (\<forall>page pageSize. page_of e rq = Inr page \<and> pageSize_of e rq = Inr pageSize \<longrightarrow>
               (res_data body, res_total body) = paginate filtered page pageSize)"
  using assms
  by (auto simp: courses_def Let_def split: lookup.splits sum.splits prod.splits)

lemma scholarships_success:
  assumes "scholarships e rq = Success body"
  shows "\<exists>q country level deadline main details merged filtered.
           text_of e rq = Inr q \<and> country_of e rq = Inr country
         \<and> level_of e rq = Inr level \<and> deadline_of e rq = Inr deadline
         \<and> loadJsonl e (resolvePrivateFile e (str ''scholarships_pk.jsonl'')) = Inr main
         \<and> loadJsonl e (resolvePrivateFile e (str ''scholar_details.jsonl'')) = Inr details
         \<and> merged_of main details = Inr merged
         \<and> scholarships_filtered e q country level deadline merged = Inr filtered
         \<and> (\<forall>page pageSize. page_of e rq = Inr page \<and> pageSize_of e rq = Inr pageSize \<longrightarrow>
               (res_data body, res_total body) = paginate filtered page pageSize)"
  using assms
  by (auto simp: scholarships_def Let_def split: sum.splits prod.splits)

lemma courses_forward:
  assumes "origin_of e rq = Inr country" and "text_of e rq = Inr q"
      and "page_of e rq = Inr page" and "pageSize_of e rq = Inr pageSize"
      and "COUNTRY_FILES country = Own fileName"
      and "loadJsonl e (resolvePrivateFile e fileName) = Inr all"
      and "courses_filtered e country q all = Inr filtered"
  shows "courses e rq = Success \<lparr>res_data = fst (paginate filtered page pageSize),
           res_total = snd (paginate filtered page pageSize), res_page = page,
           res_pageSize = pageSize, res_country = Some country\<rparr>"
  using assms by (simp add: courses_def Let_def split: prod.splits)

lemma scholarships_forward:
  assumes "text_of e rq = Inr q" and "country_of e rq = Inr country"
      and "level_of e rq = Inr level" and "deadline_of e rq = Inr deadline"
      and "page_of e rq = Inr page" and "pageSize_of e rq = Inr pageSize"
      and "loadJsonl e (resolvePrivateFile e (str ''scholarships_pk.jsonl'')) = Inr main"
      and "loadJsonl e (resolvePrivateFile e (str ''scholar_details.jsonl'')) = Inr details"
      and "merged_of main details = Inr merged"
      and "scholarships_filtered e q country level deadline merged = Inr filtered"
  shows "scholarships e rq = Success \<lparr>res_data = fst (paginate filtered page pageSize),
           res_total = snd (paginate filtered page pageSize), res_page = page,
           res_pageSize = pageSize, res_country = None\<rparr>"
  using assms by (simp add: scholarships_def Let_def split: prod.splits)

lemma page_of_clamped: "page_of e rq = Inr (Fin p) \<Longrightarrow> 1 \<le> p"
  by (cases "param_string e (page_param rq) (str ''1'')";
      cases "parseInt (projr (param_string e (page_param rq) (str ''1'')))")
     (auto simp: page_of_def)

lemma pageSize_of_clamped: "pageSize_of e rq = Inr (Fin ps) \<Longrightarrow> 1 \<le> ps \<and> ps \<le> 50"
  by (cases "param_string e (pageSize_param rq) (str ''20'')";
      cases "parseInt (projr (param_string e (pageSize_param rq) (str ''20'')))")
     (auto simp: pageSize_of_def)

lemma courses_total:
  assumes "courses e rq = Success body"
      and "courses e (rq\<lparr>page_param := a, pageSize_param := b\<rparr>) = Success body'"
  shows "res_total body' = res_total body"
  using assms
  by (auto simp: courses_def Let_def paginate_def origin_of_def text_of_def
           split: lookup.splits sum.splits)

lemma scholarships_total:
  assumes "scholarships e rq = Success body"
      and "scholarships e (rq\<lparr>page_param := a, pageSize_param := b\<rparr>) = Success body'"
  shows "res_total body' = res_total body"
  using assms
  by (auto simp: scholarships_def Let_def paginate_def
           country_of_def level_of_def deadline_of_def text_of_def split: sum.splits)

text \<open>
  C6. Let \<open>p\<close> be a page of at least 1, \<open>ps\<close> a page size from 1 to 50 and \<open>xs\<close> a sequence
  of records, shorter than \<^verbatim>\<open>2^53\<close> as every array is. The pagination step returns as
  \<^verbatim>\<open>total\<close> the length of \<open>xs\<close>, whatever the page and the page size, and as \<^verbatim>\<open>data\<close> the
  slice of at most \<open>ps\<close> records of \<open>xs\<close> from offset \<open>(p - 1) * ps\<close>, in order, which is
  empty when the offset is at or beyond the length, as it is for the infinite page.
  Each handler applies the step to its filtered sequence. When the parameters of a
  request to the programme query are read as \<open>p\<close>, \<open>ps\<close>, an origin with a file and a
  text, the file loads and the title filter returns \<open>xs\<close>, the answer is the body with
  that slice of \<open>xs\<close>, the length of \<open>xs\<close>, \<open>p\<close>, \<open>ps\<close> and the origin. When the parameters
  of a request to the scholarship query are read as \<open>p\<close>, \<open>ps\<close>, a text, a country, a
  level and a deadline, both files load, the join succeeds and the four filters return
  \<open>xs\<close>, the answer is the body with that slice of \<open>xs\<close>, the length of \<open>xs\<close>, \<open>p\<close> and
  \<open>ps\<close>. Conversely a body answered by either query holds the length of the filtered
  sequence of the request and that slice of it, and two bodies answered to requests
  that differ in the \<^verbatim>\<open>page\<close> and \<^verbatim>\<open>pageSize\<close> parameters only have the same \<^verbatim>\<open>total\<close>.
\<close>

theorem pagination_postcondition:
  assumes "1 \<le> p" and "1 \<le> ps" and "ps \<le> 50" and "length xs < 2 ^ 53"
  shows "paginate xs (Fin p) (Fin ps)
           = (take (nat ps) (drop (nat ((p - 1) * ps)) xs), length xs)
     \<and> length (fst (paginate xs (Fin p) (Fin ps))) \<le> nat ps
     \<and> (length xs \<le> nat ((p - 1) * ps) \<longrightarrow> fst (paginate xs (Fin p) (Fin ps)) = [])
     \<and> snd (paginate xs page pageSize) = length xs
     \<and> paginate xs PInf (Fin ps) = ([], length xs)
     \<and> (origin_of e rq = Inr origin \<and> text_of e rq = Inr q
          \<and> page_of e rq = Inr (Fin p) \<and> pageSize_of e rq = Inr (Fin ps)
          \<and> COUNTRY_FILES origin = Own fileName
          \<and> loadJsonl e (resolvePrivateFile e fileName) = Inr all
          \<and> courses_filtered e origin q all = Inr xs \<longrightarrow>
          courses e rq = Success \<lparr>res_data = take (nat ps) (drop (nat ((p - 1) * ps)) xs),
             res_total = length xs, res_page = Fin p, res_pageSize = Fin ps,
             res_country = Some origin\<rparr>)
     \<and> (text_of e rq = Inr q \<and> country_of e rq = Inr country
          \<and> level_of e rq = Inr level \<and> deadline_of e rq = Inr deadline
          \<and> page_of e rq = Inr (Fin p) \<and> pageSize_of e rq = Inr (Fin ps)
          \<and> loadJsonl e (resolvePrivateFile e (str ''scholarships_pk.jsonl'')) = Inr main
          \<and> loadJsonl e (resolvePrivateFile e (str ''scholar_details.jsonl'')) = Inr details
          \<and> merged_of main details = Inr merged
          \<and> scholarships_filtered e q country level deadline merged = Inr xs \<longrightarrow>
          scholarships e rq
            = Success \<lparr>res_data = take (nat ps) (drop (nat ((p - 1) * ps)) xs),
                res_total = length xs, res_page = Fin p, res_pageSize = Fin ps,
                res_country = None\<rparr>)
     \<and> (courses e rq = Success body
          \<and> page_of e rq = Inr (Fin p) \<and> pageSize_of e rq = Inr (Fin ps) \<longrightarrow>
          (\<exists>country q fileName all filtered.
              origin_of e rq = Inr country \<and> text_of e rq = Inr q
            \<and> COUNTRY_FILES country = Own fileName
            \<and> loadJsonl e (resolvePrivateFile e fileName) = Inr all
            \<and> courses_filtered e country q all = Inr filtered
            \<and> res_total body = length filtered
            \<and> (length filtered < 2 ^ 53 \<longrightarrow>
                 res_data body = take (nat ps) (drop (nat ((p - 1) * ps)) filtered))))
     \<and> (scholarships e rq = Success body
          \<and> page_of e rq = Inr (Fin p) \<and> pageSize_of e rq = Inr (Fin ps) \<longrightarrow>
          (\<exists>q country level deadline main details merged filtered.
              text_of e rq = Inr q \<and> country_of e rq = Inr country
            \<and> level_of e rq = Inr level \<and> deadline_of e rq = Inr deadline
            \<and> loadJsonl e (resolvePrivateFile e (str ''scholarships_pk.jsonl'')) = Inr main
            \<and> loadJsonl e (resolvePrivateFile e (str ''scholar_details.jsonl''))
                = Inr details
            \<and> merged_of main details = Inr merged
            \<and> scholarships_filtered e q country level deadline merged = Inr filtered
            \<and> res_total body = length filtered
            \<and> (length filtered < 2 ^ 53 \<longrightarrow>
                 res_data body = take (nat ps) (drop (nat ((p - 1) * ps)) filtered))))
     \<and> (courses e rq = Success body
          \<and> courses e (rq\<lparr>page_param := a, pageSize_param := b\<rparr>) = Success body'
          \<longrightarrow> res_total body' = res_total body)
     \<and> (scholarships e rq = Success body
          \<and> scholarships e (rq\<lparr>page_param := a, pageSize_param := b\<rparr>) = Success body'
          \<longrightarrow> res_total body' = res_total body)"
proof -
  have eq: "paginate ys (Fin p) (Fin ps)
           = (take (nat ps) (drop (nat ((p - 1) * ps)) ys), length ys)"
    if "length ys < 2 ^ 53" for ys :: "jsval list"
  proof -
    from that have "int (length ys) < 2 ^ 53" by simp
    with assms(1,2) show ?thesis by (rule paginate_clamped)
  qed
  have eq': "paginate xs (Fin p) (Fin ps)
           = (take (nat ps) (drop (nat ((p - 1) * ps)) xs), length xs)"
    using assms(4) by (rule eq)
  have 1: "length (fst (paginate xs (Fin p) (Fin ps))) \<le> nat ps"
    by (simp add: eq')
  have 2: "length xs \<le> nat ((p - 1) * ps) \<longrightarrow> fst (paginate xs (Fin p) (Fin ps)) = []"
    by (simp add: eq')
  have t: "snd (paginate xs page pageSize) = length xs"
    by (rule paginate_total)
  have i: "paginate xs PInf (Fin ps) = ([], length xs)"
    using assms(2) by (rule paginate_infinite_page)
  have f1: "courses e rq = Success \<lparr>res_data = take (nat ps) (drop (nat ((p - 1) * ps)) xs),
             res_total = length xs, res_page = Fin p, res_pageSize = Fin ps,
             res_country = Some origin\<rparr>"
    if "origin_of e rq = Inr origin \<and> text_of e rq = Inr q
          \<and> page_of e rq = Inr (Fin p) \<and> pageSize_of e rq = Inr (Fin ps)
          \<and> COUNTRY_FILES origin = Own fileName
          \<and> loadJsonl e (resolvePrivateFile e fileName) = Inr all
          \<and> courses_filtered e origin q all = Inr xs"
  proof -
    from that have "courses e rq = Success \<lparr>res_data = fst (paginate xs (Fin p) (Fin ps)),
           res_total = snd (paginate xs (Fin p) (Fin ps)), res_page = Fin p,
           res_pageSize = Fin ps, res_country = Some origin\<rparr>"
      by (intro courses_forward [where q = q and fileName = fileName and all = all]) simp_all
    then show ?thesis by (simp add: eq')
  qed
  have f2: "scholarships e rq
            = Success \<lparr>res_data = take (nat ps) (drop (nat ((p - 1) * ps)) xs),
                res_total = length xs, res_page = Fin p, res_pageSize = Fin ps,
                res_country = None\<rparr>"
    if "text_of e rq = Inr q \<and> country_of e rq = Inr country
          \<and> level_of e rq = Inr level \<and> deadline_of e rq = Inr deadline
          \<and> page_of e rq = Inr (Fin p) \<and> pageSize_of e rq = Inr (Fin ps)
          \<and> loadJsonl e (resolvePrivateFile e (str ''scholarships_pk.jsonl'')) = Inr main
          \<and> loadJsonl e (resolvePrivateFile e (str ''scholar_details.jsonl'')) = Inr details
          \<and> merged_of main details = Inr merged
          \<and> scholarships_filtered e q country level deadline merged = Inr xs"
  proof -
    from that have "scholarships e rq
        = Success \<lparr>res_data = fst (paginate xs (Fin p) (Fin ps)),
           res_total = snd (paginate xs (Fin p) (Fin ps)), res_page = Fin p,
           res_pageSize = Fin ps, res_country = None\<rparr>"
      by (intro scholarships_forward [where q = q and country = country and level = level
            and deadline = deadline and main = main and details = details
            and merged = merged]) simp_all
    then show ?thesis by (simp add: eq')
  qed
  have 3: "\<exists>country q fileName all filtered.
              origin_of e rq = Inr country \<and> text_of e rq = Inr q
            \<and> COUNTRY_FILES country = Own fileName
            \<and> loadJsonl e (resolvePrivateFile e fileName) = Inr all
            \<and> courses_filtered e country q all = Inr filtered
            \<and> res_total body = length filtered
            \<and> (length filtered < 2 ^ 53 \<longrightarrow>
                 res_data body = take (nat ps) (drop (nat ((p - 1) * ps)) filtered))"
    if "courses e rq = Success body
          \<and> page_of e rq = Inr (Fin p) \<and> pageSize_of e rq = Inr (Fin ps)"
  proof -
    from that obtain country q fileName all filtered where
      f: "origin_of e rq = Inr country" "text_of e rq = Inr q"
         "COUNTRY_FILES country = Own fileName"
         "loadJsonl e (resolvePrivateFile e fileName) = Inr all"
         "courses_filtered e country q all = Inr filtered"
         "(res_data body, res_total body) = paginate filtered (Fin p) (Fin ps)"
      using courses_success [of e rq body] by blast
    from f(6) have "res_total body = snd (paginate filtered (Fin p) (Fin ps))"
      by (metis snd_conv)
    then have a: "res_total body = length filtered" by (simp only: paginate_total)
    have b: "length filtered < 2 ^ 53 \<longrightarrow>
        res_data body = take (nat ps) (drop (nat ((p - 1) * ps)) filtered)"
    proof
      assume "length filtered < 2 ^ 53"
      then have "paginate filtered (Fin p) (Fin ps)
           = (take (nat ps) (drop (nat ((p - 1) * ps)) filtered), length filtered)"
        by (rule eq)
      with f(6) show "res_data body = take (nat ps) (drop (nat ((p - 1) * ps)) filtered)"
        by simp
    qed
    from f(1-5) a b show ?thesis by blast
  qed
  have 4: "\<exists>q country level deadline main details merged filtered.
              text_of e rq = Inr q \<and> country_of e rq = Inr country
            \<and> level_of e rq = Inr level \<and> deadline_of e rq = Inr deadline
            \<and> loadJsonl e (resolvePrivateFile e (str ''scholarships_pk.jsonl'')) = Inr main
            \<and> loadJsonl e (resolvePrivateFile e (str ''scholar_details.jsonl''))
                = Inr details
            \<and> merged_of main details = Inr merged
            \<and> scholarships_filtered e q country level deadline merged = Inr filtered
            \<and> res_total body = length filtered
            \<and> (length filtered < 2 ^ 53 \<longrightarrow>
                 res_data body = take (nat ps) (drop (nat ((p - 1) * ps)) filtered))"
    if "scholarships e rq = Success body
          \<and> page_of e rq = Inr (Fin p) \<and> pageSize_of e rq = Inr (Fin ps)"
  proof -
    from that obtain q country level deadline main details merged filtered where
      f: "text_of e rq = Inr q" "country_of e rq = Inr country"
         "level_of e rq = Inr level" "deadline_of e rq = Inr deadline"
         "loadJsonl e (resolvePrivateFile e (str ''scholarships_pk.jsonl'')) = Inr main"
         "loadJsonl e (resolvePrivateFile e (str ''scholar_details.jsonl'')) = Inr details"
         "merged_of main details = Inr merged"
         "scholarships_filtered e q country level deadline merged = Inr filtered"
         "(res_data body, res_total body) = paginate filtered (Fin p) (Fin ps)"
      using scholarships_success [of e rq body] by blast
    from f(9) have "res_total body = snd (paginate filtered (Fin p) (Fin ps))"
      by (metis snd_conv)
    then have a: "res_total body = length filtered" by (simp only: paginate_total)
    have b: "length filtered < 2 ^ 53 \<longrightarrow>
        res_data body = take (nat ps) (drop (nat ((p - 1) * ps)) filtered)"
    proof
      assume "length filtered < 2 ^ 53"
      then have "paginate filtered (Fin p) (Fin ps)
           = (take (nat ps) (drop (nat ((p - 1) * ps)) filtered), length filtered)"
        by (rule eq)
      with f(9) show "res_data body = take (nat ps) (drop (nat ((p - 1) * ps)) filtered)"
        by simp
    qed
    from f(1-8) a b show ?thesis by blast
  qed
  have c: "courses e rq = Success body
          \<and> courses e (rq\<lparr>page_param := a, pageSize_param := b\<rparr>) = Success body'
          \<longrightarrow> res_total body' = res_total body"
    using courses_total by blast
  have d: "scholarships e rq = Success body
          \<and> scholarships e (rq\<lparr>page_param := a, pageSize_param := b\<rparr>) = Success body'
          \<longrightarrow> res_total body' = res_total body"
    using scholarships_total by blast
  from eq' 1 2 t i f1 f2 3 4 c d show ?thesis by blast
qed

text \<open>
  The second page of size 2 of five records holds the third and the fourth. Asked for
  its second page of size 2, the example catalogue of three records answers with the
  third record and the total 3. Asked for their second page of size 1, the three example
  scholarships, joined with their steps, answer with the second and the total 3.
\<close>

theorem pagination_postcondition_witness:
  "paginate [Null, Bool True, Bool False, Str [], Arr []] (Fin 2) (Fin 2)
     = ([Bool False, Str []], 5)
   \<and> courses example_env
        (no_params\<lparr>page_param := Str (str ''2''), pageSize_param := Str (str ''2'')\<rparr>)
       = Success \<lparr>res_data = [Obj []], res_total = 3, res_page = Fin 2, res_pageSize = Fin 2,
           res_country = Some (str ''germany'')\<rparr>
   \<and> scholarships example_env
        (no_params\<lparr>page_param := Str (str ''2''), pageSize_param := Str (str ''1'')\<rparr>)
       = Success \<lparr>res_data = [Obj [(str ''scholarship_id'', Str (str ''k'')),
                                   (str ''name'', Str (str ''Beta'')),
                                   (str ''steps'', Arr [Str (str ''b'')])]],
           res_total = 3, res_page = Fin 2, res_pageSize = Fin 1, res_country = None\<rparr>"
proof -
  let ?five = "[Null, Bool True, Bool False, Str [], Arr []]"
  let ?rq = "no_params\<lparr>page_param := Str (str ''2''), pageSize_param := Str (str ''2'')\<rparr>"
  let ?rq' = "no_params\<lparr>page_param := Str (str ''2''), pageSize_param := Str (str ''1'')\<rparr>"
  let ?all = "[Num (Finite 1), Arr [Num (Finite 7), Num (Finite 8)], Obj []]"
  let ?merged = "[Obj [(str ''id'', Num (Finite 1)), (str ''name'', Str (str ''Alpha'')),
                       (str ''levels'', Arr [Str (str ''MSc'')]),
                       (str ''steps'', Arr [Str (str ''a'')])],
                  Obj [(str ''scholarship_id'', Str (str ''k'')),
                       (str ''name'', Str (str ''Beta'')),
                       (str ''steps'', Arr [Str (str ''b'')])],
                  Obj [(str ''name'', Str (str ''Gamma'')), (str ''steps'', Arr [])]]"
  have h: "(1::int) \<le> 2" "(1::int) \<le> 1" "(2::int) \<le> 50" "(1::int) \<le> 50" by simp_all
  have n: "length ?five < 2 ^ 53" "length ?all < 2 ^ 53" "length ?merged < 2 ^ 53"
    by simp_all
  have "paginate ?five (Fin 2) (Fin 2)
      = (take (nat 2) (drop (nat ((2 - 1) * 2)) ?five), length ?five)"
    using pagination_postcondition [OF h(1) h(1) h(3) n(1)] by blast
  then have one: "paginate ?five (Fin 2) (Fin 2) = ([Bool False, Str []], 5)"
    by simp
  have c: "origin_of example_env ?rq = Inr (str ''germany'')
      \<and> text_of example_env ?rq = Inr []
      \<and> page_of example_env ?rq = Inr (Fin 2) \<and> pageSize_of example_env ?rq = Inr (Fin 2)
      \<and> COUNTRY_FILES (str ''germany'') = Own (str ''daad_programmes.jsonl'')
      \<and> loadJsonl example_env (resolvePrivateFile example_env (str ''daad_programmes.jsonl''))
          = Inr ?all
      \<and> courses_filtered example_env (str ''germany'') [] ?all = Inr ?all"
    by code_simp
  have "courses example_env ?rq
      = Success \<lparr>res_data = take (nat 2) (drop (nat ((2 - 1) * 2)) ?all),
          res_total = length ?all, res_page = Fin 2, res_pageSize = Fin 2,
          res_country = Some (str ''germany'')\<rparr>"
    using pagination_postcondition [OF h(1) h(1) h(3) n(2), where e = example_env
        and rq = ?rq and origin = "str ''germany''" and q = "[]"
        and fileName = "str ''daad_programmes.jsonl''" and all = ?all] c
    by blast
  then have two: "courses example_env ?rq
      = Success \<lparr>res_data = [Obj []], res_total = 3, res_page = Fin 2, res_pageSize = Fin 2,
           res_country = Some (str ''germany'')\<rparr>"
    by simp
  have s: "text_of example_env ?rq' = Inr [] \<and> country_of example_env ?rq' = Inr []
      \<and> level_of example_env ?rq' = Inr [] \<and> deadline_of example_env ?rq' = Inr []
      \<and> page_of example_env ?rq' = Inr (Fin 2) \<and> pageSize_of example_env ?rq' = Inr (Fin 1)
      \<and> loadJsonl example_env (resolvePrivateFile example_env (str ''scholarships_pk.jsonl''))
          = Inr example_main
      \<and> loadJsonl example_env (resolvePrivateFile example_env (str ''scholar_details.jsonl''))
          = Inr example_details
      \<and> merged_of example_main example_details = Inr ?merged
      \<and> scholarships_filtered example_env [] [] [] [] ?merged = Inr ?merged"
    by code_simp
  have "scholarships example_env ?rq'
      = Success \<lparr>res_data = take (nat 1) (drop (nat ((2 - 1) * 1)) ?merged),
          res_total = length ?merged, res_page = Fin 2, res_pageSize = Fin 1,
          res_country = None\<rparr>"
    using pagination_postcondition [OF h(1) h(2) h(4) n(3), where e = example_env
        and rq = ?rq' and q = "[]" and country = "[]" and level = "[]" and deadline = "[]"
        and main = example_main and details = example_details and merged = ?merged] s
    by blast
  then have three: "scholarships example_env ?rq'
      = Success \<lparr>res_data = [Obj [(str ''scholarship_id'', Str (str ''k'')),
                                   (str ''name'', Str (str ''Beta'')),
                                   (str ''steps'', Arr [Str (str ''b'')])]],
           res_total = 3, res_page = Fin 2, res_pageSize = Fin 1, res_country = None\<rparr>"
    by simp
  from one two three show ?thesis by blast
qed

section \<open>Properties of the programme query\<close>

lemma param_string_Str: "s \<noteq> [] \<Longrightarrow> param_string e (Str s) d = Inr s"
  by (simp add: param_string_def js_or_def js_String_def)

text \<open>
  C2 at the failing input. The country \<^verbatim>\<open>constructor\<close> (and likewise \<^verbatim>\<open>__proto__\<close>) is none
  of the four origins, yet the read of the table finds the inherited member, the guard
  of line 92 lets it pass, building the path throws, and the answer is status 500 with
  \<^verbatim>\<open>Server error\<close>, whatever the file system holds.
\<close>

theorem courses_inherited_member_500:
  "courses e (rq\<lparr>country_param := Str (str ''constructor'')\<rparr>)
     = Failure 500 (str ''Server error'')
   \<and> courses e (rq\<lparr>country_param := Str (str ''__proto__'')\<rparr>)
     = Failure 500 (str ''Server error'')"
proof -
  have 1: "toLowerCase e (str ''constructor'') = str ''constructor''" by code_simp
  have 2: "toLowerCase e (str ''__proto__'') = str ''__proto__''" by code_simp
  have 3: "COUNTRY_FILES (str ''constructor'') = Inherited" by code_simp
  have 4: "COUNTRY_FILES (str ''__proto__'') = Inherited" by code_simp
  have n: "str ''constructor'' \<noteq> []" "str ''__proto__'' \<noteq> []" by code_simp+
  have o: "origin_of e (rq\<lparr>country_param := Str (str ''constructor'')\<rparr>)
             = Inr (str ''constructor'')"
          "origin_of e (rq\<lparr>country_param := Str (str ''__proto__'')\<rparr>)
             = Inr (str ''__proto__'')"
    by (simp_all add: origin_of_def param_string_Str n 1 2)
  show ?thesis by (simp add: courses_def o 3 4 split: sum.splits)
qed

lemma courses_rejects_unlisted:
  "origin_of e rq = Inr country \<Longrightarrow> COUNTRY_FILES country = Absent \<Longrightarrow>
   text_of e rq = Inr q \<Longrightarrow> page_of e rq = Inr page \<Longrightarrow> pageSize_of e rq = Inr pageSize \<Longrightarrow>
   courses e rq = Failure 400 (str ''Unsupported country'')"
  by (simp add: courses_def)

lemma courses_rejects_france:
  "courses e (no_params\<lparr>country_param := Str (str ''france'')\<rparr>)
     = Failure 400 (str ''Unsupported country'')"
proof -
  let ?rq = "no_params\<lparr>country_param := Str (str ''france'')\<rparr>"
  have 1: "origin_of e ?rq = Inr (str ''france'')" by code_simp
  have 2: "COUNTRY_FILES (str ''france'') = Absent" by code_simp
  have 3: "text_of e ?rq = Inr []" by code_simp
  have 4: "page_of e ?rq = Inr (Fin 1)" by code_simp
  have 5: "pageSize_of e ?rq = Inr (Fin 20)" by code_simp
  from 1 2 3 4 5 show ?thesis by (rule courses_rejects_unlisted)
qed

text \<open>
  C3 at the failing input. For the page \<^verbatim>\<open>abc\<close> the effective page is \<^verbatim>\<open>NaN\<close>, not an
  integer of at least 1, and for the page size \<^verbatim>\<open>abc\<close> the effective page size is \<^verbatim>\<open>NaN\<close>;
  the programme query then answers with no record at all and that page.
\<close>

theorem page_not_a_number:
  "page_of e (rq\<lparr>page_param := Str (str ''abc'')\<rparr>) = Inr NaN
   \<and> pageSize_of e (rq\<lparr>pageSize_param := Str (str ''abc'')\<rparr>) = Inr NaN
   \<and> courses example_env (no_params\<lparr>page_param := Str (str ''abc'')\<rparr>)
       = Success \<lparr>res_data = [], res_total = 3, res_page = NaN, res_pageSize = Fin 20,
           res_country = Some (str ''germany'')\<rparr>"
proof -
  have p: "parseInt (str ''abc'') = NaN" by code_simp
  have n: "str ''abc'' \<noteq> []" by code_simp
  have 1: "page_of e (rq\<lparr>page_param := Str (str ''abc'')\<rparr>) = Inr NaN"
    by (simp add: page_of_def param_string_Str n p)
  have 2: "pageSize_of e (rq\<lparr>pageSize_param := Str (str ''abc'')\<rparr>) = Inr NaN"
    by (simp add: pageSize_of_def param_string_Str n p)
  have 3: "courses example_env (no_params\<lparr>page_param := Str (str ''abc'')\<rparr>)
       = Success \<lparr>res_data = [], res_total = 3, res_page = NaN, res_pageSize = Fin 20,
           res_country = Some (str ''germany'')\<rparr>"
    by code_simp
  from 1 2 3 show ?thesis by simp
qed

lemma page_clamp_numeric:
  assumes "param_string e (page_param rq) (str ''1'') = Inr s" and "parseInt s = Fin n"
      and "param_string e (pageSize_param rq) (str ''20'') = Inr t" and "parseInt t = Fin m"
  shows "page_of e rq = Inr (Fin (max 1 n))
       \<and> pageSize_of e rq = Inr (Fin (min 50 (max 1 m)))"
  using assms by (simp add: page_of_def pageSize_of_def)

lemma page_clamp_examples:
  "page_of e (rq\<lparr>page_param := Str (str ''0'')\<rparr>) = Inr (Fin 1)
   \<and> pageSize_of e (rq\<lparr>pageSize_param := Str (str ''1000'')\<rparr>) = Inr (Fin 50)
   \<and> pageSize_of e (rq\<lparr>pageSize_param := Str (str ''0'')\<rparr>) = Inr (Fin 1)"
proof -
  have "parseInt (str ''0'') = Fin 0" "parseInt (str ''1000'') = Fin 1000" by code_simp+
  moreover have "str ''0'' \<noteq> []" "str ''1000'' \<noteq> []" by code_simp+
  ultimately show ?thesis
    by (simp add: page_of_def pageSize_of_def param_string_Str)
qed

lemma parseInt_rounds:
  "parseInt (str ''9007199254740993'') = Fin 9007199254740992
   \<and> parseInt (str ''-9007199254740995'') = Fin (- 9007199254740996)
   \<and> parseInt (str ''  12abc'') = Fin 12"
  by code_simp

text \<open>
  C10. When the country parameter is absent or empty, \<^verbatim>\<open>/api/courses\<close> answers exactly
  as for the country \<^verbatim>\<open>germany\<close>: never with the rejection of an unsupported country, and
  otherwise from the file \<^verbatim>\<open>daad_programmes.jsonl\<close>, filtered under the title rule of
  that origin, with \<^verbatim>\<open>germany\<close> as the country of the answer.
\<close>

theorem courses_default_origin:
  assumes "c = Undefined \<or> c = Str []"
  shows "courses e (rq\<lparr>country_param := c\<rparr>)
           = courses e (rq\<lparr>country_param := Str (str ''germany'')\<rparr>)
     \<and> courses e (rq\<lparr>country_param := c\<rparr>) \<noteq> Failure 400 (str ''Unsupported country'')
     \<and> origin_of e (rq\<lparr>country_param := c\<rparr>) = Inr (str ''germany'')
     \<and> (text_of e rq = Inr q \<and> page_of e rq = Inr page \<and> pageSize_of e rq = Inr pageSize \<longrightarrow>
         courses e (rq\<lparr>country_param := c\<rparr>) =
         (case loadJsonl e (resolvePrivateFile e (str ''daad_programmes.jsonl'')) of
            Inl err \<Rightarrow> Failure 500 (str ''Server error'')
          | Inr all \<Rightarrow>
             (case courses_filtered e (str ''germany'') q all of
                Inl err \<Rightarrow> Failure 500 (str ''Server error'')
              | Inr filtered \<Rightarrow>
                 Success \<lparr>res_data = fst (paginate filtered page pageSize),
                   res_total = length filtered, res_page = page,
                   res_pageSize = pageSize, res_country = Some (str ''germany'')\<rparr>)))"
proof -
  have l: "toLowerCase e (str ''germany'') = str ''germany''" by code_simp
  have n: "str ''germany'' \<noteq> []" by code_simp
  have u: "str ''Unsupported country'' \<noteq> str ''Server error''" by code_simp
  have f: "COUNTRY_FILES (str ''germany'') = Own (str ''daad_programmes.jsonl'')"
    by (simp add: COUNTRY_FILES_def)
  have country: "origin_of e (rq\<lparr>country_param := c\<rparr>) = Inr (str ''germany'')"
    using assms l n by (auto simp: origin_of_def param_string_def js_String_def js_or_def)
  have country': "origin_of e (rq\<lparr>country_param := Str (str ''germany'')\<rparr>)
      = Inr (str ''germany'')"
    using l n by (simp add: origin_of_def param_string_Str)
  have pg: "page_of e (rq\<lparr>country_param := x\<rparr>) = page_of e rq"
           "pageSize_of e (rq\<lparr>country_param := x\<rparr>) = pageSize_of e rq"
           "text_of e (rq\<lparr>country_param := x\<rparr>) = text_of e rq" for x
    by (simp_all add: page_of_def pageSize_of_def text_of_def)
  have same: "courses e (rq\<lparr>country_param := c\<rparr>)
           = courses e (rq\<lparr>country_param := Str (str ''germany'')\<rparr>)"
    unfolding courses_def country country' pg by (rule refl)
  have ne: "courses e (rq\<lparr>country_param := c\<rparr>) \<noteq> Failure 400 (str ''Unsupported country'')"
    by (simp add: courses_def country pg f u Let_def split: sum.splits prod.splits)
  have body: "courses e (rq\<lparr>country_param := c\<rparr>) =
         (case loadJsonl e (resolvePrivateFile e (str ''daad_programmes.jsonl'')) of
            Inl err \<Rightarrow> Failure 500 (str ''Server error'')
          | Inr all \<Rightarrow>
             (case courses_filtered e (str ''germany'') q all of
                Inl err \<Rightarrow> Failure 500 (str ''Server error'')
              | Inr filtered \<Rightarrow>
                 Success \<lparr>res_data = fst (paginate filtered page pageSize),
                   res_total = length filtered, res_page = page,
                   res_pageSize = pageSize, res_country = Some (str ''germany'')\<rparr>))"
    if "text_of e rq = Inr q \<and> page_of e rq = Inr page \<and> pageSize_of e rq = Inr pageSize"
    using that
    by (simp add: courses_def country pg f Let_def paginate_def split: sum.splits)
  from same ne country body show ?thesis by blast
qed

text \<open>
  Without any parameter the example catalogue answers with its three records, as it
  does for the country \<^verbatim>\<open>germany\<close>.
\<close>

theorem courses_default_origin_witness:
  "courses example_env (no_params\<lparr>country_param := Undefined\<rparr>)
     = courses example_env (no_params\<lparr>country_param := Str (str ''germany'')\<rparr>)
   \<and> courses example_env (no_params\<lparr>country_param := Undefined\<rparr>)
     = Success \<lparr>res_data = [Num (Finite 1), Arr [Num (Finite 7), Num (Finite 8)], Obj []],
         res_total = 3, res_page = Fin 1, res_pageSize = Fin 20,
         res_country = Some (str ''germany'')\<rparr>"
proof -
  have h: "Undefined = Undefined \<or> Undefined = Str []" by simp
  have v: "courses example_env (no_params\<lparr>country_param := Str (str ''germany'')\<rparr>)
     = Success \<lparr>res_data = [Num (Finite 1), Arr [Num (Finite 7), Num (Finite 8)], Obj []],
         res_total = 3, res_page = Fin 1, res_pageSize = Fin 20,
         res_country = Some (str ''germany'')\<rparr>"
    by code_simp
  have "courses example_env (no_params\<lparr>country_param := Undefined\<rparr>)
     = courses example_env (no_params\<lparr>country_param := Str (str ''germany'')\<rparr>)"
    using courses_default_origin [OF h, of example_env no_params] by blast
  with v show ?thesis by simp
qed

end
